theory Spec2Isabelle
  imports Main "HOL-Library.Word"
begin

unbundle bit_operations_syntax

section \<open>The OSB4 SMBus driver (kernel/busses/i2c-osb4.c)\<close>

text \<open>
  The driver talks to the host controller through byte-wide I/O ports. A run of the
  driver is modelled by explicit state passing over an \<open>io\<close> record:
  \<^item> \<open>inputs s p\<close> is the sequence of bytes that the coming reads of port \<open>p\<close> will
    return (the hardware is an arbitrary source of values; every behaviour of a real
    controller is one choice of these sequences);
  \<^item> \<open>trace s\<close> is the list of port accesses and pauses performed so far, oldest first.

  Log output (\<open>printk\<close>) changes neither registers nor results and is left out. The
  register reads that a \<open>DEBUG\<close> build performs to fill its log lines are kept. The
  preprocessor symbol \<open>DEBUG\<close> is a parameter \<open>debug\<close> of the model (the file itself
  does not define it, so the default build has \<open>debug = False\<close>).
\<close>

type_synonym u8 = "8 word"
type_synonym u16 = "16 word"
type_synonym cint = "32 word"

datatype event = Inb u16 u8 | Outb u16 u8 | Pause nat

record io =
  inputs :: "u16 \<Rightarrow> nat \<Rightarrow> u8"
  trace :: "event list"

subsection \<open>Port access primitives\<close>

definition inb :: "u16 \<Rightarrow> io \<Rightarrow> u8 \<times> io" where
  "inb port s =
     (inputs s port 0,
      s\<lparr>inputs := (inputs s)(port := (\<lambda>n. inputs s port (Suc n))),
        trace := trace s @ [Inb port (inputs s port 0)]\<rparr>)"

definition inb_p :: "u16 \<Rightarrow> io \<Rightarrow> u8 \<times> io" where
  "inb_p port s = inb port s"

definition outb :: "u8 \<Rightarrow> u16 \<Rightarrow> io \<Rightarrow> io" where
  "outb v port s = s\<lparr>trace := trace s @ [Outb port v]\<rparr>"

definition outb_p :: "u8 \<Rightarrow> u16 \<Rightarrow> io \<Rightarrow> io" where
  "outb_p v port s = outb v port s"

subsection \<open>Register map and constants\<close>

definition SMBHSTSTS :: "u16 \<Rightarrow> u16" where "SMBHSTSTS osb4_smba = 0 + osb4_smba"
definition SMBHSLVSTS :: "u16 \<Rightarrow> u16" where "SMBHSLVSTS osb4_smba = 1 + osb4_smba"
definition SMBHSTCNT :: "u16 \<Rightarrow> u16" where "SMBHSTCNT osb4_smba = 2 + osb4_smba"
definition SMBHSTCMD :: "u16 \<Rightarrow> u16" where "SMBHSTCMD osb4_smba = 3 + osb4_smba"
definition SMBHSTADD :: "u16 \<Rightarrow> u16" where "SMBHSTADD osb4_smba = 4 + osb4_smba"
definition SMBHSTDAT0 :: "u16 \<Rightarrow> u16" where "SMBHSTDAT0 osb4_smba = 5 + osb4_smba"
definition SMBHSTDAT1 :: "u16 \<Rightarrow> u16" where "SMBHSTDAT1 osb4_smba = 6 + osb4_smba"
definition SMBBLKDAT :: "u16 \<Rightarrow> u16" where "SMBBLKDAT osb4_smba = 7 + osb4_smba"


definition MAX_TIMEOUT :: nat where "MAX_TIMEOUT = 500"
definition ENABLE_INT9 :: cint where "ENABLE_INT9 = 0"

definition OSB4_QUICK :: cint where "OSB4_QUICK = 0x00"
definition OSB4_BYTE :: cint where "OSB4_BYTE = 0x04"
definition OSB4_BYTE_DATA :: cint where "OSB4_BYTE_DATA = 0x08"
definition OSB4_WORD_DATA :: cint where "OSB4_WORD_DATA = 0x0C"
definition OSB4_BLOCK_DATA :: cint where "OSB4_BLOCK_DATA = 0x14"

text \<open>
  The SMBus request codes and \<open>ENODEV\<close> are declared by the kernel headers
  \<open>linux/i2c.h\<close> and \<open>linux/errno.h\<close>, which the driver includes; the values below
  are the ones of the kernel interface.
\<close>

definition I2C_SMBUS_READ :: u8 where "I2C_SMBUS_READ = 1"
definition I2C_SMBUS_WRITE :: u8 where "I2C_SMBUS_WRITE = 0"

definition I2C_SMBUS_QUICK :: cint where "I2C_SMBUS_QUICK = 0"
definition I2C_SMBUS_BYTE :: cint where "I2C_SMBUS_BYTE = 1"
definition I2C_SMBUS_BYTE_DATA :: cint where "I2C_SMBUS_BYTE_DATA = 2"
definition I2C_SMBUS_WORD_DATA :: cint where "I2C_SMBUS_WORD_DATA = 3"
definition I2C_SMBUS_PROC_CALL :: cint where "I2C_SMBUS_PROC_CALL = 4"
definition I2C_SMBUS_BLOCK_DATA :: cint where "I2C_SMBUS_BLOCK_DATA = 5"


subsection \<open>\<open>osb4_do_pause\<close> and \<open>osb4_transaction\<close>\<close>

definition osb4_do_pause :: "nat \<Rightarrow> io \<Rightarrow> io" where
  "osb4_do_pause amount s = s\<lparr>trace := trace s @ [Pause amount]\<rparr>"

text \<open>
  The five register reads of the two \<open>DEBUG\<close> log lines ("Transaction (pre)" and
  "Transaction (post)"). C leaves the order of the five reads open; the model takes them
  left to right. Their values are only printed.
\<close>

definition debug_dump :: "u16 \<Rightarrow> io \<Rightarrow> io" where
  "debug_dump osb4_smba s =
     (let (cnt, s) = inb_p (SMBHSTCNT osb4_smba) s;
          (cmd, s) = inb_p (SMBHSTCMD osb4_smba) s;
          (add, s) = inb_p (SMBHSTADD osb4_smba) s;
          (dat0, s) = inb_p (SMBHSTDAT0 osb4_smba) s;
          (dat1, s) = inb_p (SMBHSTDAT1 osb4_smba) s
      in s)"

text \<open>
  The polling loop (lines 287 to 290):
  \<^verbatim>\<open>do { osb4_do_pause(1); temp = inb_p(SMBHSTSTS); }
  while ((temp & 0x01) && (timeout++ < MAX_TIMEOUT));\<close>
  The increment of \<open>timeout\<close> happens whenever the left operand of \<open>&&\<close> is true, also
  when the comparison then fails. The function returns the last status byte, the final
  value of \<open>timeout\<close> and the state.
\<close>

function poll_loop :: "u16 \<Rightarrow> nat \<Rightarrow> io \<Rightarrow> u8 \<times> nat \<times> io" where
  "poll_loop osb4_smba timeout s =
     (let s1 = osb4_do_pause 1 s;
          (temp, s2) = inb_p (SMBHSTSTS osb4_smba) s1
      in if temp AND 0x01 \<noteq> 0 then
           (if timeout < MAX_TIMEOUT then poll_loop osb4_smba (timeout + 1) s2
            else (temp, timeout + 1, s2))
         else (temp, timeout, s2))"
  by pat_completeness auto
termination
  by (relation "measure (\<lambda>(a, t, s). MAX_TIMEOUT - t)") auto

text \<open>
  The status decode (lines 292 to 320): \<open>result\<close> starts at 0; the assignment
  \<open>result = -1\<close> of the timeout test stands between \<open>#ifdef DEBUG\<close> and \<open>#endif\<close>, the
  three assignments of the bit tests do not.
\<close>

definition decode_status :: "bool \<Rightarrow> u8 \<Rightarrow> nat \<Rightarrow> int" where
  "decode_status debug temp timeout =
     (let result = 0;
          result = (if timeout \<ge> MAX_TIMEOUT then (if debug then -1 else result) else result);
          result = (if temp AND 0x10 \<noteq> 0 then -1 else result);
          result = (if temp AND 0x08 \<noteq> 0 then -1 else result);
          result = (if temp AND 0x04 \<noteq> 0 then -1 else result)
      in result)"

text \<open>Lines 322 to 337: clear the status register, read it once more.\<close>

definition clear_status :: "bool \<Rightarrow> u16 \<Rightarrow> io \<Rightarrow> io" where
  "clear_status debug osb4_smba s =
     (let (t, s) = inb_p (SMBHSTSTS osb4_smba) s;
          s = (if t \<noteq> 0x00 then
                 (let (v, s) = inb (SMBHSTSTS osb4_smba) s
                  in outb_p v (SMBHSTSTS osb4_smba) s)
               else s);
          (temp, s) = inb_p (SMBHSTSTS osb4_smba) s
      in if debug then debug_dump osb4_smba s else s)"

text \<open>
  Lines 257 to 281: the busy check. The first component is \<open>False\<close> where the source
  returns \<open>-1\<close> at line 275.
\<close>

definition busy_check :: "bool \<Rightarrow> u16 \<Rightarrow> io \<Rightarrow> bool \<times> io" where
  "busy_check debug osb4_smba s =
     (let s = (if debug then debug_dump osb4_smba s else s);
          (temp, s) = inb_p (SMBHSTSTS osb4_smba) s
      in if temp \<noteq> 0x00 then
           (let s = outb_p temp (SMBHSTSTS osb4_smba) s;
                (temp, s) = inb_p (SMBHSTSTS osb4_smba) s
            in if temp \<noteq> 0x00 then (False, s) else (True, s))
         else (True, s))"

text \<open>Line 284: \<^verbatim>\<open>outb_p(inb(SMBHSTCNT) | 0x040, SMBHSTCNT);\<close>\<close>

definition start_transaction :: "u16 \<Rightarrow> io \<Rightarrow> io" where
  "start_transaction osb4_smba s =
     (let (cnt, s) = inb (SMBHSTCNT osb4_smba) s
      in outb_p (cnt OR 0x040) (SMBHSTCNT osb4_smba) s)"

definition osb4_transaction :: "bool \<Rightarrow> u16 \<Rightarrow> io \<Rightarrow> int \<times> io" where
  "osb4_transaction debug osb4_smba s =
     (let (ready, s) = busy_check debug osb4_smba s
      in if \<not> ready then (-1, s)
         else
           (let s = start_transaction osb4_smba s;
                (temp, timeout, s) = poll_loop osb4_smba 0 s;
                result = decode_status debug temp timeout
            in (result, clear_status debug osb4_smba s)))"

subsection \<open>\<open>osb4_access\<close>\<close>

text \<open>
  The caller's \<open>union i2c_smbus_data\<close> is modelled as the bytes at offsets 0, 1, 2, ...
  from the pointer \<open>data\<close>: \<open>data->block[i]\<close> is the byte at offset \<open>i\<close>, \<open>data->byte\<close>
  the byte at offset 0 and \<open>data->word\<close> the bytes at offsets 0 and 1, low byte first
  (the driver is for an x86 south bridge). The kernel header \<open>linux/i2c.h\<close> declares
  the members as \<open>__u8 byte\<close>, \<open>__u16 word\<close> and \<open>__u8 block[]\<close> with \<open>block[0]\<close> the
  length and up to 32 payload bytes behind it. A store through \<open>data->block[i]\<close> is the
  update of offset \<open>i\<close>, whatever \<open>i\<close> is.
\<close>

type_synonym smbus_data = "nat \<Rightarrow> u8"

definition data_word :: "smbus_data \<Rightarrow> u16" where
  "data_word d = ucast (d 0) OR push_bit 8 (ucast (d 1))"

definition store_word :: "smbus_data \<Rightarrow> u16 \<Rightarrow> smbus_data" where
  "store_word d w = d(0 := ucast w, 1 := ucast (drop_bit 8 w))"

text \<open>\<^verbatim>\<open>((addr & 0x7f) << 1) | (read_write & 0x01)\<close>, computed in \<open>int\<close>, passed as a byte.\<close>

definition addr_byte :: "u16 \<Rightarrow> u8 \<Rightarrow> u8" where
  "addr_byte addr read_write =
     ucast (push_bit 1 ((ucast addr :: cint) AND 0x7f) OR ((scast read_write :: cint) AND 0x01))"

text \<open>Lines 395 and 396: \<^verbatim>\<open>for (i = 1; i <= len; i++) outb_p(data->block[i], SMBBLKDAT);\<close>\<close>

function block_write_loop :: "u16 \<Rightarrow> smbus_data \<Rightarrow> int \<Rightarrow> int \<Rightarrow> io \<Rightarrow> io" where
  "block_write_loop osb4_smba d i len s =
     (if i \<le> len
      then block_write_loop osb4_smba d (i + 1) len (outb_p (d (nat i)) (SMBBLKDAT osb4_smba) s)
      else s)"
  by pat_completeness auto
termination
  by (relation "measure (\<lambda>(a, d, i, len, s). nat (len + 1 - i))") auto

text \<open>
  Lines 389 to 392, on the \<open>int\<close> variable \<open>len\<close>:
  \<^verbatim>\<open>if (len < 0) len = 0; if (len > 32) len = 32;\<close>
\<close>

definition clamp_block_len :: "int \<Rightarrow> int" where
  "clamp_block_len len =
     (let len = (if len < 0 then 0 else len);
          len = (if len > 32 then 32 else len)
      in len)"

text \<open>
  The first \<open>switch\<close> (lines 348 to 400). \<open>None\<close> is the \<open>return -1\<close> of
  \<open>I2C_SMBUS_PROC_CALL\<close>; otherwise the new value of \<open>size\<close> and the state. A \<open>size\<close>
  that matches no \<open>case\<close> label falls through the \<open>switch\<close> unchanged.
\<close>

definition load_registers ::
  "u16 \<Rightarrow> u16 \<Rightarrow> u8 \<Rightarrow> u8 \<Rightarrow> cint \<Rightarrow> smbus_data \<Rightarrow> io \<Rightarrow> (cint \<times> io) option" where
  "load_registers osb4_smba addr read_write command sz d s =
     (if sz = I2C_SMBUS_PROC_CALL then None
      else if sz = I2C_SMBUS_QUICK then
        (let s = outb_p (addr_byte addr read_write) (SMBHSTADD osb4_smba) s
         in Some (OSB4_QUICK, s))
      else if sz = I2C_SMBUS_BYTE then
        (let s = outb_p (addr_byte addr read_write) (SMBHSTADD osb4_smba) s;
             s = (if read_write = I2C_SMBUS_WRITE
                  then outb_p command (SMBHSTCMD osb4_smba) s else s)
         in Some (OSB4_BYTE, s))
      else if sz = I2C_SMBUS_BYTE_DATA then
        (let s = outb_p (addr_byte addr read_write) (SMBHSTADD osb4_smba) s;
             s = outb_p command (SMBHSTCMD osb4_smba) s;
             s = (if read_write = I2C_SMBUS_WRITE
                  then outb_p (d 0) (SMBHSTDAT0 osb4_smba) s else s)
         in Some (OSB4_BYTE_DATA, s))
      else if sz = I2C_SMBUS_WORD_DATA then
        (let s = outb_p (addr_byte addr read_write) (SMBHSTADD osb4_smba) s;
             s = outb_p command (SMBHSTCMD osb4_smba) s;
             s = (if read_write = I2C_SMBUS_WRITE
                  then (let s = outb_p (ucast (data_word d AND 0xff)) (SMBHSTDAT0 osb4_smba) s
                        in outb_p (ucast (drop_bit 8 (data_word d AND 0xff00)))
                             (SMBHSTDAT1 osb4_smba) s)
                  else s)
         in Some (OSB4_WORD_DATA, s))
      else if sz = I2C_SMBUS_BLOCK_DATA then
        (let s = outb_p (addr_byte addr read_write) (SMBHSTADD osb4_smba) s;
             s = outb_p command (SMBHSTCMD osb4_smba) s;
             s = (if read_write = I2C_SMBUS_WRITE
                  then (let len = uint (d 0);
                            len = clamp_block_len len;
                            s = outb_p (word_of_int len) (SMBHSTDAT0 osb4_smba) s;
                            (i, s) = inb_p (SMBHSTCNT osb4_smba) s
                        in block_write_loop osb4_smba d 1 len s)
                  else s)
         in Some (OSB4_BLOCK_DATA, s))
      else Some (sz, s))"

text \<open>
  Lines 427 and 428:
  \<^verbatim>\<open>for (i = 1; i <= data->block[0]; i++) data->block[i] = inb_p(SMBBLKDAT);\<close>
  The bound \<open>data->block[0]\<close> is read again at every test.
\<close>

function block_read_loop :: "u16 \<Rightarrow> int \<Rightarrow> smbus_data \<Rightarrow> io \<Rightarrow> smbus_data \<times> io" where
  "block_read_loop osb4_smba i d s =
     (if i \<le> uint (d 0)
      then (let (v, s) = inb_p (SMBBLKDAT osb4_smba) s
            in block_read_loop osb4_smba (i + 1) (d(nat i := v)) s)
      else (d, s))"
  by pat_completeness auto
termination
proof (relation "measure (\<lambda>(a, i, d, s). nat (256 - i))")
  show "wf (measure (\<lambda>(a, i, d, s). nat (256 - i)))" by simp
next
  fix osb4_smba :: u16 and i :: int and d :: smbus_data and s :: io
    and x :: "u8 \<times> io" and xa :: u8 and y :: io
  assume le: "i \<le> uint (d 0)"
  have "uint (d 0) < 256" using uint_bounded [of "d 0"] by simp
  with le show "((osb4_smba, i + 1, d(nat i := xa), y), osb4_smba, i, d, s)
      \<in> measure (\<lambda>(a, i, d, s). nat (256 - i))"
    by simp
qed

text \<open>
  The second \<open>switch\<close> (lines 411 to 430), on the new value of \<open>size\<close>. The two reads
  of the word case are operands of one \<open>+\<close>; the model takes them left to right.
\<close>

definition read_result :: "u16 \<Rightarrow> cint \<Rightarrow> smbus_data \<Rightarrow> io \<Rightarrow> smbus_data \<times> io" where
  "read_result osb4_smba sz d s =
     (if sz = OSB4_BYTE then
        (let (v, s) = inb_p (SMBHSTDAT0 osb4_smba) s in (d(0 := v), s))
      else if sz = OSB4_BYTE_DATA then
        (let (v, s) = inb_p (SMBHSTDAT0 osb4_smba) s in (d(0 := v), s))
      else if sz = OSB4_WORD_DATA then
        (let (lo, s) = inb_p (SMBHSTDAT0 osb4_smba) s;
             (hi, s) = inb_p (SMBHSTDAT1 osb4_smba) s
         in (store_word d (ucast ((ucast lo :: cint) + push_bit 8 (ucast hi))), s))
      else if sz = OSB4_BLOCK_DATA then
        (let (v, s) = inb_p (SMBHSTDAT0 osb4_smba) s;
             d = d(0 := v);
             (i, s) = inb_p (SMBHSTCNT osb4_smba) s
         in block_read_loop osb4_smba 1 d s)
      else (d, s))"

text \<open>
  \<open>osb4_access\<close> returns the \<open>s32\<close> result, the caller's data and the state. The
  arguments \<open>adap\<close> and \<open>flags\<close> are not used by the source.
\<close>

definition osb4_access ::
  "bool \<Rightarrow> u16 \<Rightarrow> u16 \<Rightarrow> u8 \<Rightarrow> u8 \<Rightarrow> cint \<Rightarrow> smbus_data \<Rightarrow> io \<Rightarrow> int \<times> smbus_data \<times> io" where
  "osb4_access debug osb4_smba addr read_write command sz d s =
     (case load_registers osb4_smba addr read_write command sz d s of
        None \<Rightarrow> (-1, d, s)
      | Some (sz, s) \<Rightarrow>
          (let s = outb_p (ucast ((sz AND 0x1C) + (ENABLE_INT9 AND 1))) (SMBHSTCNT osb4_smba) s;
               (r, s) = osb4_transaction debug osb4_smba s
           in if r \<noteq> 0 then (-1, d, s)
              else if read_write = I2C_SMBUS_WRITE \<or> sz = OSB4_QUICK then (0, d, s)
              else (let (d, s) = read_result osb4_smba sz d s in (0, d, s))))"

subsection \<open>\<open>osb4_setup\<close>\<close>




record module_state =
  force :: cint
  force_addr :: cint
  osb4_smba :: u16





subsection \<open>Observations on runs\<close>

text \<open>The number of \<open>osb4_do_pause(1)\<close> calls recorded in a trace.\<close>

definition pauses :: "event list \<Rightarrow> nat" where
  "pauses tr = length (filter (\<lambda>e. e = Pause 1) tr)"

text \<open>
  The number of iterations of the polling loop when it is entered in state \<open>s\<close> (with
  \<open>timeout = 0\<close>, as the source does): every iteration pauses exactly once.
\<close>

definition poll_iterations :: "u16 \<Rightarrow> io \<Rightarrow> nat" where
  "poll_iterations a s = pauses (trace (snd (snd (poll_loop a 0 s)))) - pauses (trace s)"

text \<open>The state after one iteration of the polling loop.\<close>

definition poll_step :: "u16 \<Rightarrow> io \<Rightarrow> io" where
  "poll_step a s = snd (inb_p (SMBHSTSTS a) (osb4_do_pause 1 s))"

text \<open>
  A controller at base address \<open>0x1000\<close> whose status register reads 0 once (idle
  before the transaction) and \<open>0x01\<close> ever after: the in-progress bit never clears and
  no error bit is ever set. All other registers read 0.
\<close>

definition stuck_io :: io where
  "stuck_io =
     \<lparr>inputs = (\<lambda>p n. if p = SMBHSTSTS 0x1000 \<and> 0 < n then 0x01 else 0x00), trace = []\<rparr>"

text \<open>Every register reads \<open>0x01\<close> for ever.\<close>

definition always_busy :: io where
  "always_busy = \<lparr>inputs = (\<lambda>p n. 0x01), trace = []\<rparr>"

text \<open>The values written to port \<open>p\<close>, in the order of the writes.\<close>

definition port_writes :: "u16 \<Rightarrow> event list \<Rightarrow> u8 list" where
  "port_writes p tr = concat (map (\<lambda>e. case e of Outb q v \<Rightarrow> if q = p then [v] else [] | _ \<Rightarrow> []) tr)"

text \<open>The values read from port \<open>p\<close>, in the order of the reads.\<close>

definition port_reads :: "u16 \<Rightarrow> event list \<Rightarrow> u8 list" where
  "port_reads p tr = concat (map (\<lambda>e. case e of Inb q v \<Rightarrow> if q = p then [v] else [] | _ \<Rightarrow> []) tr)"

text \<open>All port writes of a trace, in order.\<close>

definition writes :: "event list \<Rightarrow> event list" where
  "writes tr = filter (\<lambda>e. case e of Outb q v \<Rightarrow> True | _ \<Rightarrow> False) tr"

text \<open>The reads and writes of port \<open>p\<close>, in order.\<close>

definition accesses :: "u16 \<Rightarrow> event list \<Rightarrow> event list" where
  "accesses p tr = filter (\<lambda>e. case e of Inb q v \<Rightarrow> q = p | Outb q v \<Rightarrow> q = p | Pause k \<Rightarrow> False) tr"

text \<open>The polling loop as \<open>osb4_transaction\<close> runs it: after the busy check and the start
  write. Its first two components are the status byte and the value of \<open>timeout\<close> held when
  the loop ends.\<close>

definition final_poll :: "bool \<Rightarrow> u16 \<Rightarrow> io \<Rightarrow> u8 \<times> nat \<times> io" where
  "final_poll debug a s = poll_loop a 0 (start_transaction a (snd (busy_check debug a s)))"

text \<open>Every register reads 0.\<close>

definition idle_io :: io where
  "idle_io = \<lparr>inputs = (\<lambda>p n. 0x00), trace = []\<rparr>"

text \<open>The status register reads \<open>0x04\<close> once, left over from an earlier cycle, then 0.\<close>

definition dirty_io :: io where
  "dirty_io = \<lparr>inputs = (\<lambda>p n. if p = SMBHSTSTS 0x1000 \<and> n = 0 then 0x04 else 0x00), trace = []\<rparr>"

text \<open>The status register reads \<open>0x08\<close> for ever: writing it back does not clear it.\<close>

definition wedged_io :: io where
  "wedged_io = \<lparr>inputs = (\<lambda>p n. if p = SMBHSTSTS 0x1000 then 0x08 else 0x00), trace = []\<rparr>"

text \<open>The status register reads 0 at the busy check, then \<open>0x04\<close> (no response).\<close>

definition nack_io :: io where
  "nack_io = \<lparr>inputs = (\<lambda>p n. if p = SMBHSTSTS 0x1000 \<and> 0 < n then 0x04 else 0x00), trace = []\<rparr>"

text \<open>The five size classes that \<open>osb4_func\<close> advertises.\<close>

definition supported :: "cint \<Rightarrow> bool" where
  "supported sz = (sz = I2C_SMBUS_QUICK \<or> sz = I2C_SMBUS_BYTE \<or> sz = I2C_SMBUS_BYTE_DATA \<or>
     sz = I2C_SMBUS_WORD_DATA \<or> sz = I2C_SMBUS_BLOCK_DATA)"

text \<open>The value that the first \<open>switch\<close> of \<open>osb4_access\<close> leaves in \<open>size\<close>.\<close>

definition osb4_code :: "cint \<Rightarrow> cint" where
  "osb4_code sz =
     (if sz = I2C_SMBUS_QUICK then OSB4_QUICK
      else if sz = I2C_SMBUS_BYTE then OSB4_BYTE
      else if sz = I2C_SMBUS_BYTE_DATA then OSB4_BYTE_DATA
      else if sz = I2C_SMBUS_WORD_DATA then OSB4_WORD_DATA
      else if sz = I2C_SMBUS_BLOCK_DATA then OSB4_BLOCK_DATA
      else sz)"

text \<open>The declared length \<open>data->block[0]\<close> of a block, cut off at 32.\<close>

definition block_len :: "smbus_data \<Rightarrow> nat" where
  "block_len d = min (unat (d 0)) 32"

text \<open>
  The state in which \<open>osb4_access\<close> calls \<open>osb4_transaction\<close>: after the first
  \<open>switch\<close> and the write of the size bits to \<open>SMBHSTCNT\<close> (line 402).
\<close>

definition armed :: "u16 \<Rightarrow> u16 \<Rightarrow> u8 \<Rightarrow> u8 \<Rightarrow> cint \<Rightarrow> smbus_data \<Rightarrow> io \<Rightarrow> io" where
  "armed a addr rw cmd sz d s =
     (case load_registers a addr rw cmd sz d s of
        None \<Rightarrow> s
      | Some (sz', s') \<Rightarrow> outb_p (ucast ((sz' AND 0x1C) + (ENABLE_INT9 AND 1))) (SMBHSTCNT a) s')"

text \<open>The command register reads \<open>0x08\<close>, every other register 0.\<close>

definition readback_io :: io where
  "readback_io = \<lparr>inputs = (\<lambda>p n. if p = SMBHSTCNT 0x1000 then 0x08 else 0x00), trace = []\<rparr>"

text \<open>A block that declares 40 bytes, each payload byte \<open>0xAA\<close>.\<close>

definition long_block :: smbus_data where
  "long_block = (\<lambda>i. if i = 0 then 0x28 else 0xAA)"

text \<open>A block that declares 2 bytes, \<open>0x11\<close> and \<open>0x22\<close>.\<close>

definition short_block :: smbus_data where
  "short_block = (\<lambda>i. if i = 0 then 0x02 else if i = 1 then 0x11 else if i = 2 then 0x22 else 0x33)"

text \<open>
  A device that answers a block read with the length 40 in \<open>SMBHSTDAT0\<close> and the bytes
  1, 2, 3, ... in \<open>SMBBLKDAT\<close>; every other register reads 0.
\<close>

definition long_reply_io :: io where
  "long_reply_io =
     \<lparr>inputs = (\<lambda>p n. if p = SMBHSTDAT0 0x1000 then 0x28
                      else if p = SMBBLKDAT 0x1000 then of_nat (Suc n) else 0x00),
      trace = []\<rparr>"



section \<open>Properties\<close>

subsection \<open>The polling loop\<close>

lemmas prim_defs = inb_def inb_p_def outb_def outb_p_def osb4_do_pause_def

lemmas port_defs = SMBHSTSTS_def SMBHSTCNT_def SMBHSTCMD_def SMBHSTADD_def
  SMBHSTDAT0_def SMBHSTDAT1_def SMBBLKDAT_def

lemma pauses_append [simp]: "pauses (xs @ ys) = pauses xs + pauses ys"
  by (simp add: pauses_def)

lemma pauses_simps [simp]:
  "pauses [] = 0" "pauses (Pause (Suc 0) # tr) = Suc (pauses tr)"
  "pauses (Inb p v # tr) = pauses tr" "pauses (Outb p v # tr) = pauses tr"
  by (simp_all add: pauses_def)

declare poll_loop.simps [simp del]

lemma poll_loop_unfold:
  "poll_loop a t s =
     (if inputs s (SMBHSTSTS a) 0 AND 0x01 \<noteq> 0 then
        (if t < MAX_TIMEOUT
         then poll_loop a (t + 1) (poll_step a s)
         else (inputs s (SMBHSTSTS a) 0, t + 1, poll_step a s))
      else (inputs s (SMBHSTSTS a) 0, t, poll_step a s))"
  by (subst poll_loop.simps) (simp add: poll_step_def prim_defs Let_def)

lemma poll_loop_induct [case_names step]:
  assumes "\<And>a t s.
    (inputs s (SMBHSTSTS a) 0 AND 0x01 \<noteq> 0 \<Longrightarrow> t < MAX_TIMEOUT \<Longrightarrow>
       P a (t + 1) (poll_step a s)) \<Longrightarrow> P a t s"
  shows "P a t s"
proof (induction a t s rule: poll_loop.induct)
  case (1 a t s)
  show ?case
  proof (rule assms)
    assume b: "inputs s (SMBHSTSTS a) 0 AND 0x01 \<noteq> 0" and l: "t < MAX_TIMEOUT"
    show "P a (t + 1) (poll_step a s)"
      unfolding poll_step_def
      by (rule "1.IH" [OF refl refl _ _ l, where xb = "inputs s (SMBHSTSTS a) 0"])
         (use b in \<open>simp_all add: prim_defs\<close>)
  qed
qed

lemma poll_step_simps [simp]:
  "trace (poll_step a s) = trace s @ [Pause 1, Inb (SMBHSTSTS a) (inputs s (SMBHSTSTS a) 0)]"
  "inputs (poll_step a s) (SMBHSTSTS a) n = inputs s (SMBHSTSTS a) (Suc n)"
  by (simp_all add: poll_step_def prim_defs)

lemma poll_loop_pauses:
  "t \<le> MAX_TIMEOUT \<Longrightarrow>
   pauses (trace (snd (snd (poll_loop a t s)))) + t \<le> pauses (trace s) + MAX_TIMEOUT + 1
   \<and> pauses (trace s) < pauses (trace (snd (snd (poll_loop a t s))))"
proof (induction a t s rule: poll_loop_induct)
  case (step a t s)
  show ?case
  proof (cases "inputs s (SMBHSTSTS a) 0 AND 0x01 \<noteq> 0 \<and> t < MAX_TIMEOUT")
    case True
    with step.IH have
      "pauses (trace (snd (snd (poll_loop a (t + 1) (poll_step a s))))) + (t + 1)
         \<le> pauses (trace (poll_step a s)) + MAX_TIMEOUT + 1"
      "pauses (trace (poll_step a s))
         < pauses (trace (snd (snd (poll_loop a (t + 1) (poll_step a s)))))"
      by simp_all
    with True show ?thesis
      by (subst (1 2) poll_loop_unfold) simp
  next
    case False
    with step.prems show ?thesis
      by (subst (1 2) poll_loop_unfold) auto
  qed
qed

text \<open>
  When the in-progress bit is set in each of the next \<open>MAX_TIMEOUT + 1 - t\<close> status
  reads, the loop performs all of them: it leaves with \<open>timeout = MAX_TIMEOUT + 1\<close>.
\<close>

lemma poll_loop_all_busy:
  "t \<le> MAX_TIMEOUT \<Longrightarrow>
   (\<forall>n. n \<le> MAX_TIMEOUT - t \<longrightarrow> inputs s (SMBHSTSTS a) n AND 0x01 \<noteq> 0) \<Longrightarrow>
   fst (poll_loop a t s) = inputs s (SMBHSTSTS a) (MAX_TIMEOUT - t) \<and>
   fst (snd (poll_loop a t s)) = MAX_TIMEOUT + 1 \<and>
   pauses (trace (snd (snd (poll_loop a t s)))) = pauses (trace s) + (MAX_TIMEOUT + 1 - t)"
proof (induction a t s rule: poll_loop_induct)
  case (step a t s)
  from step.prems have busy0: "inputs s (SMBHSTSTS a) 0 AND 0x01 \<noteq> 0" by simp
  show ?case
  proof (cases "t < MAX_TIMEOUT")
    case True
    have shift: "\<forall>n. n \<le> MAX_TIMEOUT - (t + 1) \<longrightarrow>
        inputs (poll_step a s) (SMBHSTSTS a) n AND 0x01 \<noteq> 0"
      using step.prems True by simp
    have idx: "Suc (MAX_TIMEOUT - Suc t) = MAX_TIMEOUT - t" using True by simp
    from step.IH [OF busy0 True _ shift] True busy0 show ?thesis
      by (subst (1 2 3) poll_loop_unfold) (simp add: idx)
  next
    case False
    with step.prems have "t = MAX_TIMEOUT" by simp
    then show ?thesis using busy0
      by (subst (1 2 3) poll_loop_unfold) simp
  qed
qed

lemma poll_loop_stuck:
  "\<forall>n. inputs s (SMBHSTSTS a) n = 0x01 \<Longrightarrow>
   fst (poll_loop a 0 s) = 0x01 \<and> fst (snd (poll_loop a 0 s)) = MAX_TIMEOUT + 1 \<and>
   pauses (trace (snd (snd (poll_loop a 0 s)))) = pauses (trace s) + (MAX_TIMEOUT + 1)"
  using poll_loop_all_busy [of 0 s a] by simp

text \<open>
  C1. The claim: when the polling loop reaches its ceiling with the in-progress bit
  still set, \<open>osb4_transaction\<close> returns failure, also when none of the bits 4, 3, 2 is
  set. On \<open>stuck_io\<close> the loop runs into the ceiling with status \<open>0x01\<close>. The default
  build returns 0 there, the \<open>DEBUG\<close> build returns \<open>-1\<close>: the assignment
  \<open>result = -1\<close> of the timeout test is compiled only under \<open>DEBUG\<close>.
\<close>

theorem timeout_result_depends_on_debug:
  "fst (osb4_transaction False 0x1000 stuck_io) = 0 \<and>
   fst (osb4_transaction True 0x1000 stuck_io) = -1"
proof -
  have "fst (osb4_transaction dbg 0x1000 stuck_io) = decode_status dbg 0x01 (MAX_TIMEOUT + 1)"
    for dbg
  proof -
    obtain s where bc: "busy_check dbg 0x1000 stuck_io = (True, s)"
      and inp: "\<forall>n. inputs (start_transaction 0x1000 s) (SMBHSTSTS 0x1000) n = 0x01"
      by (cases dbg)
         (simp_all add: busy_check_def debug_dump_def start_transaction_def stuck_io_def
            prim_defs port_defs)
    from poll_loop_stuck [OF inp] show ?thesis
      by (simp add: osb4_transaction_def bc Let_def split_beta)
  qed
  then show ?thesis by (simp add: decode_status_def MAX_TIMEOUT_def)
qed

text \<open>
  C2. The claim: the polling loop executes at most 500 iterations. With a status
  register that always reads \<open>0x01\<close> it executes 501: the first iteration is
  unconditional and \<open>timeout++ < MAX_TIMEOUT\<close> lets 500 more follow.
\<close>

theorem poll_iterations_always_busy:
  "poll_iterations 0x1000 always_busy = 501 \<and> \<not> poll_iterations 0x1000 always_busy \<le> 500"
proof -
  have "\<forall>n. inputs always_busy (SMBHSTSTS 0x1000) n = 0x01"
    by (simp add: always_busy_def)
  from poll_loop_stuck [OF this] show ?thesis
    by (simp add: poll_iterations_def MAX_TIMEOUT_def)
qed

text \<open>
  C2, as amended: for every state in which the loop is entered, that is for every
  sequence of status-register values, the polling loop executes at least one and at
  most 501 (\<open>MAX_TIMEOUT + 1\<close>) iterations.
\<close>

theorem poll_iterations_bound:
  "1 \<le> poll_iterations a s \<and> poll_iterations a s \<le> 501"
  using poll_loop_pauses [of 0 a s] by (simp add: poll_iterations_def MAX_TIMEOUT_def) arith

theorem poll_iterations_bound_witness:
  "1 \<le> poll_iterations 0x1000 stuck_io \<and> poll_iterations 0x1000 stuck_io \<le> 501"
  using poll_iterations_bound [of "0x1000" stuck_io] by simp

subsection \<open>The busy check, the status decode and the register writes\<close>

lemma port_writes_simps [simp]:
  "port_writes p [] = []"
  "port_writes p (xs @ ys) = port_writes p xs @ port_writes p ys"
  "port_writes p (Outb q v # tr) = (if q = p then v # port_writes p tr else port_writes p tr)"
  "port_writes p (Inb q v # tr) = port_writes p tr"
  "port_writes p (Pause k # tr) = port_writes p tr"
  by (simp_all add: port_writes_def)

lemma port_reads_simps [simp]:
  "port_reads p [] = []"
  "port_reads p (xs @ ys) = port_reads p xs @ port_reads p ys"
  "port_reads p (Inb q v # tr) = (if q = p then v # port_reads p tr else port_reads p tr)"
  "port_reads p (Outb q v # tr) = port_reads p tr"
  "port_reads p (Pause k # tr) = port_reads p tr"
  by (simp_all add: port_reads_def)

lemma writes_simps [simp]:
  "writes [] = []"
  "writes (xs @ ys) = writes xs @ writes ys"
  "writes (Outb q v # tr) = Outb q v # writes tr"
  "writes (Inb q v # tr) = writes tr"
  "writes (Pause k # tr) = writes tr"
  by (simp_all add: writes_def)

lemma poll_loop_quiet:
  "writes (trace (snd (snd (poll_loop a t s)))) = writes (trace s) \<and>
   port_writes p (trace (snd (snd (poll_loop a t s)))) = port_writes p (trace s) \<and>
   (q \<noteq> SMBHSTSTS a \<longrightarrow> inputs (snd (snd (poll_loop a t s))) q = inputs s q \<and>
      port_reads q (trace (snd (snd (poll_loop a t s)))) = port_reads q (trace s))"
proof (induction a t s rule: poll_loop_induct)
  case (step a t s)
  have ps: "q \<noteq> SMBHSTSTS a \<longrightarrow> inputs (poll_step a s) q = inputs s q"
    by (simp add: poll_step_def prim_defs)
  show ?case
  proof (cases "inputs s (SMBHSTSTS a) 0 AND 0x01 \<noteq> 0 \<and> t < MAX_TIMEOUT")
    case True
    with step.IH ps show ?thesis
      by (subst (1 2 3 4) poll_loop_unfold) simp
  next
    case False
    with ps show ?thesis
      by (subst (1 2 3 4) poll_loop_unfold) auto
  qed
qed

lemma busy_check_io:
  "fst (busy_check debug a s) = (inputs s (SMBHSTSTS a) 0 = 0 \<or> inputs s (SMBHSTSTS a) 1 = 0)"
  "writes (trace (snd (busy_check debug a s))) = writes (trace s) @
     (if inputs s (SMBHSTSTS a) 0 \<noteq> 0 then [Outb (SMBHSTSTS a) (inputs s (SMBHSTSTS a) 0)] else [])"
  "port_reads (SMBHSTSTS a) (trace (snd (busy_check debug a s))) = port_reads (SMBHSTSTS a) (trace s) @
     (if inputs s (SMBHSTSTS a) 0 \<noteq> 0 then [inputs s (SMBHSTSTS a) 0, inputs s (SMBHSTSTS a) 1]
      else [inputs s (SMBHSTSTS a) 0])"
  "inputs (snd (busy_check debug a s)) (SMBHSTCNT a) n = inputs s (SMBHSTCNT a) (if debug then Suc n else n)"
  by (cases debug; simp add: busy_check_def debug_dump_def prim_defs port_defs Let_def)+

lemma accesses_simps [simp]:
  "accesses p [] = []"
  "accesses p (xs @ ys) = accesses p xs @ accesses p ys"
  "accesses p (Outb q v # tr) = (if q = p then Outb q v # accesses p tr else accesses p tr)"
  "accesses p (Inb q v # tr) = (if q = p then Inb q v # accesses p tr else accesses p tr)"
  "accesses p (Pause k # tr) = accesses p tr"
  by (simp_all add: accesses_def)

lemma busy_check_accesses:
  "accesses (SMBHSTSTS a) (trace (snd (busy_check debug a s))) = accesses (SMBHSTSTS a) (trace s) @
     (if inputs s (SMBHSTSTS a) 0 \<noteq> 0
      then [Inb (SMBHSTSTS a) (inputs s (SMBHSTSTS a) 0), Outb (SMBHSTSTS a) (inputs s (SMBHSTSTS a) 0),
            Inb (SMBHSTSTS a) (inputs s (SMBHSTSTS a) 1)]
      else [Inb (SMBHSTSTS a) 0])"
  by (cases debug; simp add: busy_check_def debug_dump_def prim_defs port_defs Let_def)

lemma transaction_busy:
  "\<not> fst (busy_check debug a s) \<Longrightarrow> osb4_transaction debug a s = (-1, snd (busy_check debug a s))"
  by (simp add: osb4_transaction_def split_beta)

lemma transaction_ready:
  "fst (busy_check debug a s) \<Longrightarrow>
   osb4_transaction debug a s =
     (decode_status debug (fst (final_poll debug a s)) (fst (snd (final_poll debug a s))),
      clear_status debug a (snd (snd (final_poll debug a s))))"
  by (simp add: osb4_transaction_def final_poll_def split_beta Let_def)

text \<open>
  C4. In the busy check, with \<open>v\<close> and \<open>v'\<close> the next two values of the status
  register: if \<open>v = 0\<close> the check passes, writes nothing and reads the status register
  once; if \<open>v \<noteq> 0\<close> it reads \<open>v\<close>, writes \<open>v\<close> back and reads once more, and that is
  its only write; if \<open>v'\<close> is not 0 either, \<open>osb4_transaction\<close> returns \<open>-1\<close>, its only
  write is the write-back of \<open>v\<close>, and nothing is written to the command register.
\<close>

theorem busy_check_clear_path:
  "(inputs s (SMBHSTSTS a) 0 = 0 \<longrightarrow>
      fst (busy_check debug a s) \<and>
      writes (trace (snd (busy_check debug a s))) = writes (trace s) \<and>
      accesses (SMBHSTSTS a) (trace (snd (busy_check debug a s))) =
        accesses (SMBHSTSTS a) (trace s) @ [Inb (SMBHSTSTS a) 0]) \<and>
   (inputs s (SMBHSTSTS a) 0 \<noteq> 0 \<longrightarrow>
      writes (trace (snd (busy_check debug a s))) =
        writes (trace s) @ [Outb (SMBHSTSTS a) (inputs s (SMBHSTSTS a) 0)] \<and>
      accesses (SMBHSTSTS a) (trace (snd (busy_check debug a s))) =
        accesses (SMBHSTSTS a) (trace s) @
          [Inb (SMBHSTSTS a) (inputs s (SMBHSTSTS a) 0),
           Outb (SMBHSTSTS a) (inputs s (SMBHSTSTS a) 0),
           Inb (SMBHSTSTS a) (inputs s (SMBHSTSTS a) 1)]) \<and>
   (inputs s (SMBHSTSTS a) 0 \<noteq> 0 \<and> inputs s (SMBHSTSTS a) 1 \<noteq> 0 \<longrightarrow>
      fst (osb4_transaction debug a s) = -1 \<and>
      writes (trace (snd (osb4_transaction debug a s))) =
        writes (trace s) @ [Outb (SMBHSTSTS a) (inputs s (SMBHSTSTS a) 0)] \<and>
      port_writes (SMBHSTCNT a) (trace (snd (osb4_transaction debug a s))) =
        port_writes (SMBHSTCNT a) (trace s))"
proof (intro conjI impI)
  assume "inputs s (SMBHSTSTS a) 0 \<noteq> 0 \<and> inputs s (SMBHSTSTS a) 1 \<noteq> 0"
  then have nr: "\<not> fst (busy_check debug a s)" and v: "inputs s (SMBHSTSTS a) 0 \<noteq> 0"
    by (simp_all add: busy_check_io)
  show "fst (osb4_transaction debug a s) = -1"
    by (simp add: transaction_busy [OF nr])
  show "writes (trace (snd (osb4_transaction debug a s))) =
        writes (trace s) @ [Outb (SMBHSTSTS a) (inputs s (SMBHSTSTS a) 0)]"
    using v by (simp add: transaction_busy [OF nr] busy_check_io)
  have "port_writes (SMBHSTCNT a) (trace (snd (busy_check debug a s))) =
        port_writes (SMBHSTCNT a) (trace s)"
    by (cases debug; simp add: busy_check_def debug_dump_def prim_defs port_defs Let_def)
  then show "port_writes (SMBHSTCNT a) (trace (snd (osb4_transaction debug a s))) =
        port_writes (SMBHSTCNT a) (trace s)"
    by (simp add: transaction_busy [OF nr])
qed (simp_all add: busy_check_io busy_check_accesses)

text \<open>
  C5. When the busy check passes, let \<open>temp\<close> be the status byte and \<open>timeout\<close> the
  counter held at the end of polling. If bit 4, bit 3 or bit 2 of \<open>temp\<close> is set,
  \<open>osb4_transaction\<close> returns \<open>-1\<close>; if none of them is set, the in-progress bit is clear
  and the ceiling was not reached, it returns 0.
\<close>

theorem status_decode_result:
  assumes "fst (busy_check debug a s)"
    and "temp = fst (final_poll debug a s)"
    and "timeout = fst (snd (final_poll debug a s))"
  shows "(temp AND 0x10 \<noteq> 0 \<or> temp AND 0x08 \<noteq> 0 \<or> temp AND 0x04 \<noteq> 0 \<longrightarrow>
           fst (osb4_transaction debug a s) = -1) \<and>
         (temp AND 0x10 = 0 \<and> temp AND 0x08 = 0 \<and> temp AND 0x04 = 0 \<and>
          temp AND 0x01 = 0 \<and> timeout < MAX_TIMEOUT \<longrightarrow>
           fst (osb4_transaction debug a s) = 0)"
  using assms(2,3) by (auto simp add: transaction_ready [OF assms(1)] decode_status_def)

theorem busy_check_clear_path_witness:
  "inputs idle_io (SMBHSTSTS 0x1000) 0 = 0 \<and>
   fst (busy_check False 0x1000 idle_io) \<and>
   writes (trace (snd (busy_check False 0x1000 idle_io))) = [] \<and>
   accesses (SMBHSTSTS 0x1000) (trace (snd (busy_check False 0x1000 idle_io))) = [Inb 0x1000 0] \<and>
   inputs dirty_io (SMBHSTSTS 0x1000) 0 \<noteq> 0 \<and>
   writes (trace (snd (busy_check False 0x1000 dirty_io))) = [Outb 0x1000 0x04] \<and>
   accesses (SMBHSTSTS 0x1000) (trace (snd (busy_check False 0x1000 dirty_io))) =
     [Inb 0x1000 0x04, Outb 0x1000 0x04, Inb 0x1000 0] \<and>
   inputs wedged_io (SMBHSTSTS 0x1000) 0 \<noteq> 0 \<and> inputs wedged_io (SMBHSTSTS 0x1000) 1 \<noteq> 0 \<and>
   fst (osb4_transaction False 0x1000 wedged_io) = -1 \<and>
   writes (trace (snd (osb4_transaction False 0x1000 wedged_io))) = [Outb 0x1000 0x08] \<and>
   port_writes (SMBHSTCNT 0x1000) (trace (snd (osb4_transaction False 0x1000 wedged_io))) = []"
  using busy_check_clear_path [of idle_io "0x1000" False]
    busy_check_clear_path [of dirty_io "0x1000" False]
    busy_check_clear_path [of wedged_io "0x1000" False]
  by (simp add: idle_io_def dirty_io_def wedged_io_def port_defs)

lemma final_poll_nack:
  "fst (busy_check False 0x1000 nack_io) \<and> fst (final_poll False 0x1000 nack_io) = 0x04"
  by (simp add: final_poll_def poll_loop_unfold busy_check_def start_transaction_def
      nack_io_def prim_defs port_defs)

lemma final_poll_idle:
  "fst (busy_check False 0x1000 idle_io) \<and> fst (final_poll False 0x1000 idle_io) = 0x00
   \<and> fst (snd (final_poll False 0x1000 idle_io)) = 0"
  by (simp add: final_poll_def poll_loop_unfold busy_check_def start_transaction_def
      idle_io_def prim_defs port_defs)

theorem status_decode_result_witness:
  "fst (busy_check False 0x1000 nack_io) \<and> fst (final_poll False 0x1000 nack_io) = 0x04 \<and>
   fst (osb4_transaction False 0x1000 nack_io) = -1 \<and>
   fst (busy_check False 0x1000 idle_io) \<and> fst (final_poll False 0x1000 idle_io) = 0x00 \<and>
   fst (snd (final_poll False 0x1000 idle_io)) = 0 \<and>
   fst (osb4_transaction False 0x1000 idle_io) = 0"
  using final_poll_nack final_poll_idle
    status_decode_result [of False "0x1000" nack_io "0x04" "fst (snd (final_poll False 0x1000 nack_io))"]
    status_decode_result [of False "0x1000" idle_io "0x00" 0]
  by (simp add: MAX_TIMEOUT_def)

lemma start_transaction_io:
  "trace (start_transaction a s) = trace s @
     [Inb (SMBHSTCNT a) (inputs s (SMBHSTCNT a) 0), Outb (SMBHSTCNT a) (inputs s (SMBHSTCNT a) 0 OR 0x40)]"
  "q \<noteq> SMBHSTCNT a \<Longrightarrow> inputs (start_transaction a s) q = inputs s q"
  by (simp_all add: start_transaction_def prim_defs)

lemma clear_status_writes:
  "port_writes p (trace (clear_status debug a s)) = port_writes p (trace s) @
     (if p = SMBHSTSTS a \<and> inputs s (SMBHSTSTS a) 0 \<noteq> 0 then [inputs s (SMBHSTSTS a) 1] else [])"
  by (cases debug; simp add: clear_status_def debug_dump_def prim_defs port_defs Let_def)

lemma busy_check_writes:
  "port_writes p (trace (snd (busy_check debug a s))) = port_writes p (trace s) @
     (if p = SMBHSTSTS a \<and> inputs s (SMBHSTSTS a) 0 \<noteq> 0 then [inputs s (SMBHSTSTS a) 0] else [])"
  by (cases debug; simp add: busy_check_def debug_dump_def prim_defs port_defs Let_def)

lemma final_poll_writes:
  "port_writes p (trace (snd (snd (final_poll debug a s)))) =
     port_writes p (trace (snd (busy_check debug a s))) @
       (if p = SMBHSTCNT a then [inputs s (SMBHSTCNT a) (if debug then 1 else 0) OR 0x40] else [])"
  using poll_loop_quiet [of a 0 "start_transaction a (snd (busy_check debug a s))" p]
  by (simp add: final_poll_def start_transaction_io busy_check_io)

lemma transaction_cnt_writes:
  "port_writes (SMBHSTCNT a) (trace (snd (osb4_transaction debug a s))) =
     port_writes (SMBHSTCNT a) (trace s) @
       (if fst (busy_check debug a s)
        then [inputs s (SMBHSTCNT a) (if debug then 1 else 0) OR 0x40] else [])"
proof (cases "fst (busy_check debug a s)")
  case True
  then show ?thesis
    by (simp add: transaction_ready clear_status_writes final_poll_writes busy_check_writes port_defs)
next
  case False
  then show ?thesis
    by (simp add: transaction_busy busy_check_writes port_defs)
qed

lemma transaction_other_writes:
  "p \<noteq> SMBHSTSTS a \<Longrightarrow> p \<noteq> SMBHSTCNT a \<Longrightarrow>
   port_writes p (trace (snd (osb4_transaction debug a s))) = port_writes p (trace s)"
  by (cases "fst (busy_check debug a s)")
     (simp_all add: transaction_ready transaction_busy clear_status_writes final_poll_writes
        busy_check_writes)

subsection \<open>The register loads of \<open>osb4_access\<close>\<close>

declare block_write_loop.simps [simp del] block_read_loop.simps [simp del]

lemma block_write_loop_io:
  "0 \<le> i \<Longrightarrow>
   inputs (block_write_loop a d i len s) = inputs s \<and>
   trace (block_write_loop a d i len s) =
     trace s @ map (\<lambda>k. Outb (SMBBLKDAT a) (d k)) [nat i..<nat (len + 1)]"
proof (induction a d i len s rule: block_write_loop.induct)
  case (1 a d i len s)
  show ?case
  proof (cases "i \<le> len")
    case True
    with "1.prems" have nat_i: "nat i < nat (len + 1)" "Suc (nat i) = nat (i + 1)" by simp_all
    from "1.IH" [OF True] "1.prems" have
      "inputs (block_write_loop a d (i + 1) len (outb_p (d (nat i)) (SMBBLKDAT a) s)) = inputs s"
      "trace (block_write_loop a d (i + 1) len (outb_p (d (nat i)) (SMBBLKDAT a) s)) =
         trace s @ Outb (SMBBLKDAT a) (d (nat i)) #
           map (\<lambda>k. Outb (SMBBLKDAT a) (d k)) [nat (i + 1)..<nat (len + 1)]"
      by (simp_all add: prim_defs)
    with True show ?thesis
      by (subst (1 2) block_write_loop.simps) (simp add: upt_conv_Cons [OF nat_i(1)] nat_i(2))
  next
    case False
    then show ?thesis
      by (subst (1 2) block_write_loop.simps) simp
  qed
qed

lemma addr_byte_bits:
  "addr_byte addr rw = push_bit 1 (ucast (addr AND 0x7f)) OR (rw AND 1)"
  unfolding addr_byte_def
  by (rule bit_word_eqI) (auto simp add: bit_simps simp del: push_bit_Suc One_nat_def)

lemmas size_defs = I2C_SMBUS_QUICK_def I2C_SMBUS_BYTE_def I2C_SMBUS_BYTE_DATA_def
  I2C_SMBUS_WORD_DATA_def I2C_SMBUS_PROC_CALL_def I2C_SMBUS_BLOCK_DATA_def
  OSB4_QUICK_def OSB4_BYTE_def OSB4_BYTE_DATA_def OSB4_WORD_DATA_def OSB4_BLOCK_DATA_def
  ENABLE_INT9_def

lemma block_write_events:
  "trace (block_write_loop a d 1 (int n) s) =
     trace s @ map (\<lambda>k. Outb (SMBBLKDAT a) (d k)) [1..<Suc n]"
  "inputs (block_write_loop a d 1 (int n) s) = inputs s"
  using block_write_loop_io [of 1 a d "int n" s] by (simp_all add: nat_add_distrib)

lemma uint_gt_32: "32 < uint (x :: u8) \<longleftrightarrow> 32 < unat x"
proof -
  have "uint (32 :: u8) < uint x \<longleftrightarrow> unat (32 :: u8) < unat x"
    by (simp only: word_less_def [symmetric] word_less_nat_alt [symmetric])
  then show ?thesis by simp
qed

lemma clamp_block_len_eq: "clamp_block_len len = max 0 (min 32 len)"
  by (simp add: clamp_block_len_def Let_def)

lemma clamp_len:
  "clamp_block_len (uint (d 0)) = int (block_len d)"
  "word_of_int (clamp_block_len (uint (d 0))) = (word_of_nat (block_len d) :: u8)"
proof -
  show "clamp_block_len (uint (d 0)) = int (block_len d)"
  proof (cases "32 < uint (d 0)")
    case True
    then show ?thesis
      by (simp add: clamp_block_len_def uint_gt_32 block_len_def min_def)
  next
    case False
    then have "block_len d = unat (d 0)"
      by (simp add: uint_gt_32 block_len_def min_def)
    with False show ?thesis
      by (simp add: clamp_block_len_def uint_nat [symmetric])
  qed
  then show "word_of_int (clamp_block_len (uint (d 0))) = (word_of_nat (block_len d) :: u8)"
    by simp
qed

lemma port_writes_map [simp]:
  "port_writes p (map (\<lambda>k. Outb q (f k)) ks) = (if q = p then map f ks else [])"
  by (induction ks) auto

lemma size_distinct [simp]:
  "I2C_SMBUS_QUICK \<noteq> I2C_SMBUS_BLOCK_DATA" "I2C_SMBUS_BYTE \<noteq> I2C_SMBUS_BLOCK_DATA"
  "I2C_SMBUS_BYTE_DATA \<noteq> I2C_SMBUS_BLOCK_DATA" "I2C_SMBUS_WORD_DATA \<noteq> I2C_SMBUS_BLOCK_DATA"
  by (simp_all add: size_defs)

lemma load_quick:
  "load_registers a addr rw cmd I2C_SMBUS_QUICK d s =
     Some (OSB4_QUICK, outb_p (addr_byte addr rw) (SMBHSTADD a) s)"
  by (simp add: load_registers_def size_defs)

lemma load_byte:
  "load_registers a addr rw cmd I2C_SMBUS_BYTE d s =
     Some (OSB4_BYTE,
       (if rw = I2C_SMBUS_WRITE
        then outb_p cmd (SMBHSTCMD a) (outb_p (addr_byte addr rw) (SMBHSTADD a) s)
        else outb_p (addr_byte addr rw) (SMBHSTADD a) s))"
  by (simp add: load_registers_def size_defs)

lemma load_byte_data:
  "load_registers a addr rw cmd I2C_SMBUS_BYTE_DATA d s =
     Some (OSB4_BYTE_DATA,
       (if rw = I2C_SMBUS_WRITE
        then outb_p (d 0) (SMBHSTDAT0 a)
               (outb_p cmd (SMBHSTCMD a) (outb_p (addr_byte addr rw) (SMBHSTADD a) s))
        else outb_p cmd (SMBHSTCMD a) (outb_p (addr_byte addr rw) (SMBHSTADD a) s)))"
  by (simp add: load_registers_def size_defs)

lemma load_word_data:
  "load_registers a addr rw cmd I2C_SMBUS_WORD_DATA d s =
     Some (OSB4_WORD_DATA,
       (if rw = I2C_SMBUS_WRITE
        then outb_p (ucast (drop_bit 8 (data_word d AND 0xff00))) (SMBHSTDAT1 a)
               (outb_p (ucast (data_word d AND 0xff)) (SMBHSTDAT0 a)
                 (outb_p cmd (SMBHSTCMD a) (outb_p (addr_byte addr rw) (SMBHSTADD a) s)))
        else outb_p cmd (SMBHSTCMD a) (outb_p (addr_byte addr rw) (SMBHSTADD a) s)))"
  by (simp add: load_registers_def size_defs)

lemma load_block_data:
  "load_registers a addr rw cmd I2C_SMBUS_BLOCK_DATA d s =
     Some (OSB4_BLOCK_DATA,
       (if rw = I2C_SMBUS_WRITE
        then block_write_loop a d 1 (int (block_len d))
               (snd (inb_p (SMBHSTCNT a)
                 (outb_p (of_nat (block_len d)) (SMBHSTDAT0 a)
                   (outb_p cmd (SMBHSTCMD a) (outb_p (addr_byte addr rw) (SMBHSTADD a) s)))))
        else outb_p cmd (SMBHSTCMD a) (outb_p (addr_byte addr rw) (SMBHSTADD a) s)))"
  by (simp add: load_registers_def size_defs Let_def split_beta clamp_len)

lemmas load_simps = load_quick load_byte load_byte_data load_word_data load_block_data

lemma load_registers_code:
  "sz \<noteq> I2C_SMBUS_PROC_CALL \<Longrightarrow>
   \<exists>s'. load_registers a addr rw cmd sz d s = Some (osb4_code sz, s')"
  by (simp add: load_registers_def osb4_code_def Let_def split_beta)

lemma armed_unknown:
  "\<not> supported sz \<Longrightarrow> sz \<noteq> I2C_SMBUS_PROC_CALL \<Longrightarrow>
   load_registers a addr rw cmd sz d s = Some (sz, s) \<and>
   armed a addr rw cmd sz d s = outb_p (ucast (sz AND 0x1C)) (SMBHSTCNT a) s"
  by (simp add: armed_def load_registers_def supported_def ENABLE_INT9_def)

lemma supported_cases:
  assumes "supported sz"
  obtains "sz = I2C_SMBUS_QUICK" | "sz = I2C_SMBUS_BYTE" | "sz = I2C_SMBUS_BYTE_DATA"
    | "sz = I2C_SMBUS_WORD_DATA" | "sz = I2C_SMBUS_BLOCK_DATA"
  using assms unfolding supported_def by blast

lemma osb4_code_simps [simp]:
  "osb4_code I2C_SMBUS_QUICK = OSB4_QUICK" "osb4_code I2C_SMBUS_BYTE = OSB4_BYTE"
  "osb4_code I2C_SMBUS_BYTE_DATA = OSB4_BYTE_DATA" "osb4_code I2C_SMBUS_WORD_DATA = OSB4_WORD_DATA"
  "osb4_code I2C_SMBUS_BLOCK_DATA = OSB4_BLOCK_DATA"
  by (simp_all add: osb4_code_def size_defs)

lemma armed_sts:
  assumes "supported sz"
  shows "inputs (armed a addr rw cmd sz d s) (SMBHSTSTS a) = inputs s (SMBHSTSTS a)"
  using assms
  by (cases rule: supported_cases)
     (simp_all add: armed_def load_simps block_write_events prim_defs port_defs)

lemma armed_cnt:
  assumes "supported sz"
  shows "inputs (armed a addr rw cmd sz d s) (SMBHSTCNT a) n =
           inputs s (SMBHSTCNT a) (if sz = I2C_SMBUS_BLOCK_DATA \<and> rw = I2C_SMBUS_WRITE then Suc n else n)"
  using assms
  by (cases rule: supported_cases)
     (simp_all add: armed_def load_simps block_write_events prim_defs port_defs)

lemma armed_cnt_writes:
  assumes "supported sz"
  shows "port_writes (SMBHSTCNT a) (trace (armed a addr rw cmd sz d s)) =
           port_writes (SMBHSTCNT a) (trace s) @ [ucast (osb4_code sz)]"
  using assms
  by (cases rule: supported_cases)
     (simp_all add: armed_def load_simps block_write_events prim_defs port_defs
        OSB4_QUICK_def OSB4_BYTE_def OSB4_BYTE_DATA_def OSB4_WORD_DATA_def OSB4_BLOCK_DATA_def
        ENABLE_INT9_def)

lemma armed_add_writes:
  assumes "supported sz"
  shows "port_writes (SMBHSTADD a) (trace (armed a addr rw cmd sz d s)) =
           port_writes (SMBHSTADD a) (trace s) @ [addr_byte addr rw]"
  using assms
  by (cases rule: supported_cases)
     (simp_all add: armed_def load_simps block_write_events prim_defs port_defs)

lemma int_le_uint: "int k \<le> uint (x :: u8) \<longleftrightarrow> k \<le> unat x"
  by (simp only: uint_nat of_nat_le_iff)

lemma block_read_loop_io:
  "1 \<le> k \<Longrightarrow>
   fst (block_read_loop a (int k) d s) =
     (\<lambda>j. if k \<le> j \<and> j \<le> unat (d 0) then inputs s (SMBBLKDAT a) (j - k) else d j) \<and>
   trace (snd (block_read_loop a (int k) d s)) =
     trace s @ map (\<lambda>m. Inb (SMBBLKDAT a) (inputs s (SMBBLKDAT a) m)) [0..<Suc (unat (d 0)) - k]"
proof (induction "Suc (unat (d 0)) - k" arbitrary: k d s)
  case 0
  then have "\<not> int k \<le> uint (d 0)" by (simp add: int_le_uint)
  then have "block_read_loop a (int k) d s = (d, s)"
    by (subst block_read_loop.simps) simp
  with 0 show ?case by (auto simp add: fun_eq_iff)
next
  case (Suc m)
  let ?v = "inputs s (SMBBLKDAT a) 0"
  let ?d = "d(k := ?v)"
  let ?s = "snd (inb_p (SMBBLKDAT a) s)"
  define r where "r = block_read_loop a (int (Suc k)) ?d ?s"
  from Suc.hyps(2) have le: "k \<le> unat (d 0)" by simp
  then have step: "block_read_loop a (int k) d s = r"
    unfolding r_def
    by (subst block_read_loop.simps) (simp add: int_le_uint prim_defs add.commute)
  from Suc.prems have d0: "?d 0 = d 0" by simp
  have m: "m = Suc (unat (?d 0)) - Suc k" using Suc.hyps(2) d0 by simp
  have ih: "fst r =
      (\<lambda>j. if Suc k \<le> j \<and> j \<le> unat (?d 0) then inputs ?s (SMBBLKDAT a) (j - Suc k) else ?d j) \<and>
     trace (snd r) =
       trace ?s @ map (\<lambda>m. Inb (SMBBLKDAT a) (inputs ?s (SMBBLKDAT a) m))
         [0..<Suc (unat (?d 0)) - Suc k]"
    unfolding r_def by (rule Suc.hyps(1) [of ?d "Suc k" ?s, OF m]) simp
  have sh: "inputs ?s (SMBBLKDAT a) n = inputs s (SMBBLKDAT a) (Suc n)" for n
    by (simp add: prim_defs)
  have tr: "trace ?s = trace s @ [Inb (SMBBLKDAT a) ?v]" by (simp add: prim_defs)
  have len: "Suc (unat (d 0)) - k = Suc (unat (d 0) - k)" using le by simp
  have "fst r j =
      (if k \<le> j \<and> j \<le> unat (d 0) then inputs s (SMBBLKDAT a) (j - k) else d j)" for j
  proof (cases "j = k")
    case True
    with le show ?thesis by (simp add: ih)
  next
    case False
    then have "Suc k \<le> j \<longleftrightarrow> k \<le> j" by auto
    moreover have "Suc (j - Suc k) = j - k" if "k \<le> j" using that False by simp
    ultimately show ?thesis using False by (simp add: ih sh d0 del: fun_upd_apply) auto
  qed
  then have "fst r =
      (\<lambda>j. if k \<le> j \<and> j \<le> unat (d 0) then inputs s (SMBBLKDAT a) (j - k) else d j)"
    by (rule ext)
  moreover have "trace (snd r) =
     trace s @ map (\<lambda>m. Inb (SMBBLKDAT a) (inputs s (SMBBLKDAT a) m)) [0..<Suc (unat (d 0)) - k]"
    unfolding len by (simp add: ih sh tr d0 map_upt_Suc del: upt_Suc fun_upd_apply)
  ultimately show ?case unfolding step by simp
qed

lemma block_read_events:
  "fst (block_read_loop a 1 d s) =
     (\<lambda>j. if 1 \<le> j \<and> j \<le> unat (d 0) then inputs s (SMBBLKDAT a) (j - 1) else d j)"
  "trace (snd (block_read_loop a 1 d s)) =
     trace s @ map (\<lambda>m. Inb (SMBBLKDAT a) (inputs s (SMBBLKDAT a) m)) [0..<unat (d 0)]"
  using block_read_loop_io [of 1 a d s] by simp_all

lemma port_writes_map_Inb [simp]:
  "port_writes p (map (\<lambda>k. Inb q (f k)) ks) = []"
  by (induction ks) simp_all

lemma port_reads_map_Inb [simp]:
  "port_reads p (map (\<lambda>k. Inb q (f k)) ks) = (if q = p then map f ks else [])"
  by (induction ks) auto

lemma read_result_writes:
  "port_writes p (trace (snd (read_result a sz d s))) = port_writes p (trace s)"
  by (simp add: read_result_def split_beta Let_def block_read_events prim_defs)

lemma osb4_access_run:
  assumes "sz \<noteq> I2C_SMBUS_PROC_CALL"
  shows "osb4_access debug a addr rw cmd sz d s =
     (if fst (osb4_transaction debug a (armed a addr rw cmd sz d s)) \<noteq> 0
      then (-1, d, snd (osb4_transaction debug a (armed a addr rw cmd sz d s)))
      else if rw = I2C_SMBUS_WRITE \<or> osb4_code sz = OSB4_QUICK
      then (0, d, snd (osb4_transaction debug a (armed a addr rw cmd sz d s)))
      else (0, read_result a (osb4_code sz) d
                 (snd (osb4_transaction debug a (armed a addr rw cmd sz d s)))))"
proof -
  from load_registers_code [OF assms] obtain s'
    where "load_registers a addr rw cmd sz d s = Some (osb4_code sz, s')" by blast
  then show ?thesis
    by (simp add: osb4_access_def armed_def split_beta Let_def)
qed

lemma access_writes:
  "sz \<noteq> I2C_SMBUS_PROC_CALL \<Longrightarrow>
   port_writes p (trace (snd (snd (osb4_access debug a addr rw cmd sz d s)))) =
     port_writes p (trace (snd (osb4_transaction debug a (armed a addr rw cmd sz d s))))"
  by (simp add: osb4_access_run read_result_writes)

lemma supported_not_proc_call: "supported sz \<Longrightarrow> sz \<noteq> I2C_SMBUS_PROC_CALL"
  by (auto simp add: supported_def size_defs)

lemma access_cnt_writes:
  assumes "supported sz"
  shows "port_writes (SMBHSTCNT a) (trace (snd (snd (osb4_access debug a addr rw cmd sz d s)))) =
     port_writes (SMBHSTCNT a) (trace s) @
       ucast (osb4_code sz) #
       (if inputs s (SMBHSTSTS a) 0 \<noteq> 0 \<and> inputs s (SMBHSTSTS a) 1 \<noteq> 0 then []
        else [inputs s (SMBHSTCNT a)
                ((if sz = I2C_SMBUS_BLOCK_DATA \<and> rw = I2C_SMBUS_WRITE then 1 else 0) +
                 (if debug then 1 else 0)) OR 0x40])"
  by (simp add: access_writes [OF supported_not_proc_call [OF assms]] transaction_cnt_writes
      busy_check_io armed_sts [OF assms] armed_cnt [OF assms] armed_cnt_writes [OF assms])

lemma osb4_code_no_start: "supported sz \<Longrightarrow> (ucast (osb4_code sz) :: u8) AND 0x40 = 0"
  by (erule supported_cases)
     (simp_all add: OSB4_QUICK_def OSB4_BYTE_def OSB4_BYTE_DATA_def OSB4_WORD_DATA_def
        OSB4_BLOCK_DATA_def)

text \<open>
  C3. The claim: the size-class code and the start bit reach \<open>SMBHSTCNT\<close> in one
  merged write. A byte-data read from address \<open>0x48\<close> writes the register twice: first
  \<open>0x08\<close>, the size-class code without the start bit, then \<open>0x48\<close>, the value read
  back from the register with bit 6 set.
\<close>

theorem command_register_two_writes:
  "port_writes (SMBHSTCNT 0x1000)
     (trace (snd (snd (osb4_access False 0x1000 0x48 I2C_SMBUS_READ 0x00 I2C_SMBUS_BYTE_DATA
        (\<lambda>i. 0x00) readback_io)))) = [0x08, 0x48]"
proof -
  have "supported I2C_SMBUS_BYTE_DATA" by (simp add: supported_def)
  from access_cnt_writes [OF this, of "0x1000" False "0x48" I2C_SMBUS_READ "0x00" "\<lambda>i. 0x00" readback_io]
  show ?thesis
    by (simp add: readback_io_def port_defs OSB4_BYTE_DATA_def)
qed

text \<open>
  C3, as amended: for every supported size class \<open>osb4_access\<close> writes the size-class
  code (the interrupt-enable bit is compiled as 0) to \<open>SMBHSTCNT\<close> in a first write
  that does not carry the start bit. \<open>osb4_transaction\<close> then, unless the busy check
  fails, reads \<open>SMBHSTCNT\<close> and writes the value read with bit 6 set in a second,
  separate write. These are all the writes to \<open>SMBHSTCNT\<close>.
\<close>

theorem command_register_writes:
  assumes "supported sz"
  shows "port_writes (SMBHSTCNT a) (trace (snd (snd (osb4_access debug a addr rw cmd sz d s)))) =
     port_writes (SMBHSTCNT a) (trace s) @
       ucast (osb4_code sz) #
       (if inputs s (SMBHSTSTS a) 0 \<noteq> 0 \<and> inputs s (SMBHSTSTS a) 1 \<noteq> 0 then []
        else [inputs s (SMBHSTCNT a)
                ((if sz = I2C_SMBUS_BLOCK_DATA \<and> rw = I2C_SMBUS_WRITE then 1 else 0) +
                 (if debug then 1 else 0)) OR 0x40])
     \<and> (ucast (osb4_code sz) :: u8) AND 0x40 = 0"
  using access_cnt_writes [OF assms] osb4_code_no_start [OF assms] by blast

theorem command_register_writes_witness:
  "supported I2C_SMBUS_WORD_DATA \<and>
   port_writes (SMBHSTCNT 0x1000)
     (trace (snd (snd (osb4_access False 0x1000 0x48 I2C_SMBUS_WRITE 0x00 I2C_SMBUS_WORD_DATA
        (\<lambda>i. 0x00) readback_io)))) = [0x0C, 0x48]"
proof -
  have s: "supported I2C_SMBUS_WORD_DATA" by (simp add: supported_def)
  from command_register_writes [OF s, of "0x1000" False "0x48" I2C_SMBUS_WRITE "0x00" "\<lambda>i. 0x00" readback_io]
  show ?thesis using s
    by (simp add: readback_io_def port_defs OSB4_WORD_DATA_def)
qed

lemma port_distinct [simp]:
  "SMBHSTADD a \<noteq> SMBHSTSTS a" "SMBHSTADD a \<noteq> SMBHSTCNT a"
  "SMBHSTDAT0 a \<noteq> SMBHSTSTS a" "SMBHSTDAT0 a \<noteq> SMBHSTCNT a"
  "SMBHSTDAT1 a \<noteq> SMBHSTSTS a" "SMBHSTDAT1 a \<noteq> SMBHSTCNT a"
  "SMBHSTCMD a \<noteq> SMBHSTSTS a" "SMBHSTCMD a \<noteq> SMBHSTCNT a"
  "SMBBLKDAT a \<noteq> SMBHSTSTS a" "SMBBLKDAT a \<noteq> SMBHSTCNT a"
  by (simp_all add: port_defs)

lemma access_add_writes:
  assumes "supported sz"
  shows "port_writes (SMBHSTADD a) (trace (snd (snd (osb4_access debug a addr rw cmd sz d s)))) =
     port_writes (SMBHSTADD a) (trace s) @ [addr_byte addr rw]"
  by (simp add: access_writes [OF supported_not_proc_call [OF assms]] transaction_other_writes
      armed_add_writes [OF assms])

text \<open>
  C6. For the size classes quick, byte, byte-data and word-data, \<open>osb4_access\<close> writes
  \<open>SMBHSTADD\<close> exactly once, and the byte written is
  \<open>((addr & 0x7f) << 1) | (read_write & 1)\<close>; a quick write to address \<open>0x50\<close> writes
  \<open>0xA0\<close>.
\<close>

theorem address_byte_written:
  assumes "sz = I2C_SMBUS_QUICK \<or> sz = I2C_SMBUS_BYTE \<or> sz = I2C_SMBUS_BYTE_DATA \<or>
           sz = I2C_SMBUS_WORD_DATA"
  shows "port_writes (SMBHSTADD a) (trace (snd (snd (osb4_access debug a addr rw cmd sz d s)))) =
           port_writes (SMBHSTADD a) (trace s) @ [push_bit 1 (ucast (addr AND 0x7f)) OR (rw AND 1)]
         \<and> port_writes (SMBHSTADD a)
             (trace (snd (snd (osb4_access debug a 0x50 I2C_SMBUS_WRITE cmd I2C_SMBUS_QUICK d s)))) =
           port_writes (SMBHSTADD a) (trace s) @ [0xA0]"
proof -
  from assms have "supported sz" by (auto simp add: supported_def)
  moreover have "supported I2C_SMBUS_QUICK" by (simp add: supported_def)
  moreover have "addr_byte 0x50 I2C_SMBUS_WRITE = 0xA0"
    by (simp add: addr_byte_def I2C_SMBUS_WRITE_def)
  ultimately show ?thesis
    by (simp add: access_add_writes addr_byte_bits)
qed

theorem address_byte_written_witness:
  "port_writes (SMBHSTADD 0x1000)
     (trace (snd (snd (osb4_access False 0x1000 0x48 I2C_SMBUS_READ 0x00 I2C_SMBUS_BYTE_DATA
        (\<lambda>i. 0x00) idle_io)))) = [0x91] \<and>
   port_writes (SMBHSTADD 0x1000)
     (trace (snd (snd (osb4_access False 0x1000 0x50 I2C_SMBUS_WRITE 0x00 I2C_SMBUS_QUICK
        (\<lambda>i. 0x00) idle_io)))) = [0xA0]"
  using address_byte_written [of I2C_SMBUS_BYTE_DATA "0x1000" False "0x48" I2C_SMBUS_READ "0x00"
      "\<lambda>i. 0x00" idle_io]
  by (simp add: idle_io_def I2C_SMBUS_READ_def)

subsection \<open>Block transfers and unknown size classes\<close>

lemma armed_block_write:
  "trace (armed a addr I2C_SMBUS_WRITE cmd I2C_SMBUS_BLOCK_DATA d s) =
     trace s @
       [Outb (SMBHSTADD a) (addr_byte addr I2C_SMBUS_WRITE), Outb (SMBHSTCMD a) cmd,
        Outb (SMBHSTDAT0 a) (of_nat (block_len d)),
        Inb (SMBHSTCNT a) (inputs s (SMBHSTCNT a) 0)] @
       map (\<lambda>k. Outb (SMBBLKDAT a) (d k)) [1..<Suc (block_len d)] @
       [Outb (SMBHSTCNT a) 0x14]"
  by (simp add: armed_def load_block_data block_write_events prim_defs OSB4_BLOCK_DATA_def
      ENABLE_INT9_def)

text \<open>
  C7. For a block-data write the transmitted length \<open>block_len d\<close> is the declared
  length \<open>data->block[0]\<close>, cut off at 32: it is the result of the source's clamp, which
  takes any \<open>int\<close> into the range from 0 to 32 (values above 32 to 32, negative values to
  0; the declared length is an unsigned byte, so it is never negative). Before the
  transaction \<open>osb4_access\<close> writes the address and command bytes, writes that length
  to \<open>SMBHSTDAT0\<close>, reads \<open>SMBHSTCNT\<close> once and then writes the payload bytes
  \<open>data->block[1]\<close> to
  \<open>data->block[block_len d]\<close> to \<open>SMBBLKDAT\<close>, that many and no more; the whole call
  writes nothing else to \<open>SMBHSTDAT0\<close> and \<open>SMBBLKDAT\<close>.
\<close>

theorem block_write_transmission:
  "block_len d = (if 32 < unat (d 0) then 32 else unat (d 0)) \<and>
   trace (armed a addr I2C_SMBUS_WRITE cmd I2C_SMBUS_BLOCK_DATA d s) =
     trace s @
       [Outb (SMBHSTADD a) (addr_byte addr I2C_SMBUS_WRITE), Outb (SMBHSTCMD a) cmd,
        Outb (SMBHSTDAT0 a) (of_nat (block_len d)),
        Inb (SMBHSTCNT a) (inputs s (SMBHSTCNT a) 0)] @
       map (\<lambda>k. Outb (SMBBLKDAT a) (d k)) [1..<Suc (block_len d)] @
       [Outb (SMBHSTCNT a) 0x14] \<and>
   port_writes (SMBHSTDAT0 a)
     (trace (snd (snd (osb4_access debug a addr I2C_SMBUS_WRITE cmd I2C_SMBUS_BLOCK_DATA d s)))) =
     port_writes (SMBHSTDAT0 a) (trace s) @ [of_nat (block_len d)] \<and>
   port_writes (SMBBLKDAT a)
     (trace (snd (snd (osb4_access debug a addr I2C_SMBUS_WRITE cmd I2C_SMBUS_BLOCK_DATA d s)))) =
     port_writes (SMBBLKDAT a) (trace s) @ map d [1..<Suc (block_len d)] \<and>
   clamp_block_len len = max 0 (min 32 len) \<and>
   int (block_len d) = clamp_block_len (uint (d 0))"
proof -
  have pc: "I2C_SMBUS_BLOCK_DATA \<noteq> I2C_SMBUS_PROC_CALL" by (simp add: size_defs)
  show ?thesis
    by (simp add: access_writes [OF pc] transaction_other_writes armed_block_write
          clamp_block_len_eq [symmetric] clamp_len)
       (simp add: block_len_def min_def port_defs)
qed

theorem block_write_transmission_witness:
  "block_len long_block = 32 \<and>
   port_writes (SMBHSTDAT0 0x1000)
     (trace (snd (snd (osb4_access False 0x1000 0x50 I2C_SMBUS_WRITE 0x00 I2C_SMBUS_BLOCK_DATA
        long_block idle_io)))) = [0x20] \<and>
   block_len short_block = 2 \<and>
   trace (armed 0x1000 0x50 I2C_SMBUS_WRITE 0x00 I2C_SMBUS_BLOCK_DATA short_block idle_io) =
     [Outb 0x1004 0xA0, Outb 0x1003 0x00, Outb 0x1005 0x02, Inb 0x1002 0x00,
      Outb 0x1007 0x11, Outb 0x1007 0x22, Outb 0x1002 0x14] \<and>
   port_writes (SMBBLKDAT 0x1000)
     (trace (snd (snd (osb4_access False 0x1000 0x50 I2C_SMBUS_WRITE 0x00 I2C_SMBUS_BLOCK_DATA
        short_block idle_io)))) = [0x11, 0x22]"
proof -
  have "block_len long_block = 32" "block_len short_block = 2"
    by (simp_all add: block_len_def long_block_def short_block_def)
  moreover have "addr_byte 0x50 I2C_SMBUS_WRITE = 0xA0"
    by (simp add: addr_byte_def I2C_SMBUS_WRITE_def)
  moreover have "[Suc 0..<2] = [Suc 0]" by (simp add: upt_rec)
  moreover have "short_block 1 = 0x11" "short_block 2 = 0x22" by (simp_all add: short_block_def)
  ultimately show ?thesis
    using block_write_transmission [of long_block "0x1000" "0x50" "0x00" idle_io False]
      block_write_transmission [of short_block "0x1000" "0x50" "0x00" idle_io False]
    by (simp add: idle_io_def port_defs)
qed

text \<open>
  C10. For a \<open>size\<close> outside the six \<open>case\<close> labels \<open>osb4_access\<close> has no error
  return of its own: the first \<open>switch\<close> loads no register and leaves \<open>size\<close> as it
  is, the byte \<open>size & 0x1C\<close> of the raw value is written to \<open>SMBHSTCNT\<close>, and
  \<open>osb4_transaction\<close> runs; the result is \<open>-1\<close> exactly when the transaction fails.
  The call writes to the ports what that write and the transaction write, so nothing to
  the address, command and data registers.
\<close>

theorem unknown_size_runs_transaction:
  assumes "sz \<notin> {I2C_SMBUS_PROC_CALL, I2C_SMBUS_QUICK, I2C_SMBUS_BYTE, I2C_SMBUS_BYTE_DATA,
                  I2C_SMBUS_WORD_DATA, I2C_SMBUS_BLOCK_DATA}"
  shows "load_registers a addr rw cmd sz d s = Some (sz, s) \<and>
         armed a addr rw cmd sz d s = outb_p (ucast (sz AND 0x1C)) (SMBHSTCNT a) s \<and>
         trace (armed a addr rw cmd sz d s) = trace s @ [Outb (SMBHSTCNT a) (ucast (sz AND 0x1C))] \<and>
         fst (osb4_access debug a addr rw cmd sz d s) =
           (if fst (osb4_transaction debug a (armed a addr rw cmd sz d s)) \<noteq> 0 then -1 else 0) \<and>
         port_writes p (trace (snd (snd (osb4_access debug a addr rw cmd sz d s)))) =
           port_writes p (trace (snd (osb4_transaction debug a
             (outb_p (ucast (sz AND 0x1C)) (SMBHSTCNT a) s)))) \<and>
         port_writes (SMBHSTADD a) (trace (snd (snd (osb4_access debug a addr rw cmd sz d s)))) =
           port_writes (SMBHSTADD a) (trace s) \<and>
         port_writes (SMBHSTCMD a) (trace (snd (snd (osb4_access debug a addr rw cmd sz d s)))) =
           port_writes (SMBHSTCMD a) (trace s) \<and>
         port_writes (SMBHSTDAT0 a) (trace (snd (snd (osb4_access debug a addr rw cmd sz d s)))) =
           port_writes (SMBHSTDAT0 a) (trace s) \<and>
         port_writes (SMBHSTDAT1 a) (trace (snd (snd (osb4_access debug a addr rw cmd sz d s)))) =
           port_writes (SMBHSTDAT1 a) (trace s) \<and>
         port_writes (SMBBLKDAT a) (trace (snd (snd (osb4_access debug a addr rw cmd sz d s)))) =
           port_writes (SMBBLKDAT a) (trace s)"
proof -
  from assms have u: "\<not> supported sz" and pc: "sz \<noteq> I2C_SMBUS_PROC_CALL"
    by (auto simp add: supported_def)
  note au = armed_unknown [OF u pc, of a addr rw cmd d s]
  have ar: "armed a addr rw cmd sz d s = outb_p (ucast (sz AND 0x1C)) (SMBHSTCNT a) s"
    using au by simp
  have tr: "trace (armed a addr rw cmd sz d s) = trace s @ [Outb (SMBHSTCNT a) (ucast (sz AND 0x1C))]"
    by (simp add: ar prim_defs)
  have res: "fst (osb4_access debug a addr rw cmd sz d s) =
      (if fst (osb4_transaction debug a (armed a addr rw cmd sz d s)) \<noteq> 0 then -1 else 0)"
    by (simp add: osb4_access_run [OF pc])
  have all: "port_writes p (trace (snd (snd (osb4_access debug a addr rw cmd sz d s)))) =
      port_writes p (trace (snd (osb4_transaction debug a
        (outb_p (ucast (sz AND 0x1C)) (SMBHSTCNT a) s))))"
    using access_writes [OF pc, of p debug a addr rw cmd d s] by (simp only: ar)
  have w: "port_writes q (trace (snd (snd (osb4_access debug a addr rw cmd sz d s)))) =
      port_writes q (trace s)" if "q \<noteq> SMBHSTSTS a" "q \<noteq> SMBHSTCNT a" for q
    using that by (simp add: access_writes [OF pc] transaction_other_writes tr)
  from au ar tr res all w [of "SMBHSTADD a"] w [of "SMBHSTCMD a"] w [of "SMBHSTDAT0 a"]
    w [of "SMBHSTDAT1 a"] w [of "SMBBLKDAT a"]
  show ?thesis by (simp only: port_distinct not_False_eq_True simp_thms)
qed

lemma busy_check_inputs:
  "inputs (snd (busy_check debug a s)) (SMBHSTDAT0 a) n =
     inputs s (SMBHSTDAT0 a) (if debug then Suc n else n)"
  "inputs (snd (busy_check debug a s)) (SMBBLKDAT a) = inputs s (SMBBLKDAT a)"
  "port_reads (SMBBLKDAT a) (trace (snd (busy_check debug a s))) = port_reads (SMBBLKDAT a) (trace s)"
  "inputs s (SMBHSTSTS a) 0 = 0 \<Longrightarrow>
     inputs (snd (busy_check debug a s)) (SMBHSTSTS a) n = inputs s (SMBHSTSTS a) (Suc n)"
  by (cases debug; simp add: busy_check_def debug_dump_def prim_defs port_defs Let_def)+

lemma clear_status_inputs:
  "inputs (clear_status debug a s) (SMBHSTDAT0 a) n =
     inputs s (SMBHSTDAT0 a) (if debug then Suc n else n)"
  "inputs (clear_status debug a s) (SMBBLKDAT a) = inputs s (SMBBLKDAT a)"
  "port_reads (SMBBLKDAT a) (trace (clear_status debug a s)) = port_reads (SMBBLKDAT a) (trace s)"
  by (cases debug; simp add: clear_status_def debug_dump_def prim_defs port_defs Let_def)+

lemma port_distinct_more [simp]:
  "SMBHSTDAT0 a \<noteq> SMBBLKDAT a" "SMBBLKDAT a \<noteq> SMBHSTDAT0 a" "SMBHSTCNT a \<noteq> SMBBLKDAT a"
  "SMBHSTCNT a \<noteq> SMBHSTDAT0 a" "SMBHSTSTS a \<noteq> SMBHSTCNT a"
  by (simp_all add: port_defs)

lemma final_poll_inputs:
  "inputs (snd (snd (final_poll debug a s))) (SMBHSTDAT0 a) n =
     inputs s (SMBHSTDAT0 a) (if debug then Suc n else n)"
  "inputs (snd (snd (final_poll debug a s))) (SMBBLKDAT a) = inputs s (SMBBLKDAT a)"
  "port_reads (SMBBLKDAT a) (trace (snd (snd (final_poll debug a s)))) =
     port_reads (SMBBLKDAT a) (trace s)"
  using poll_loop_quiet [of a 0 "start_transaction a (snd (busy_check debug a s))" _ "SMBHSTDAT0 a"]
    poll_loop_quiet [of a 0 "start_transaction a (snd (busy_check debug a s))" _ "SMBBLKDAT a"]
  by (simp_all add: final_poll_def start_transaction_io busy_check_inputs)

lemma transaction_success_inputs:
  assumes "fst (osb4_transaction debug a s) = 0"
  shows "inputs (snd (osb4_transaction debug a s)) (SMBHSTDAT0 a) n =
           inputs s (SMBHSTDAT0 a) (if debug then Suc (Suc n) else n)"
    and "inputs (snd (osb4_transaction debug a s)) (SMBBLKDAT a) = inputs s (SMBBLKDAT a)"
    and "port_reads (SMBBLKDAT a) (trace (snd (osb4_transaction debug a s))) =
           port_reads (SMBBLKDAT a) (trace s)"
proof -
  have ready: "fst (busy_check debug a s)"
  proof (rule ccontr)
    assume "\<not> fst (busy_check debug a s)"
    from transaction_busy [OF this] assms show False by simp
  qed
  show "inputs (snd (osb4_transaction debug a s)) (SMBHSTDAT0 a) n =
           inputs s (SMBHSTDAT0 a) (if debug then Suc (Suc n) else n)"
    "inputs (snd (osb4_transaction debug a s)) (SMBBLKDAT a) = inputs s (SMBBLKDAT a)"
    "port_reads (SMBBLKDAT a) (trace (snd (osb4_transaction debug a s))) =
           port_reads (SMBBLKDAT a) (trace s)"
    by (simp_all add: transaction_ready [OF ready] clear_status_inputs final_poll_inputs)
qed

lemma transaction_idle:
  assumes "\<forall>n. inputs s (SMBHSTSTS a) n = 0"
  shows "fst (osb4_transaction debug a s) = 0"
proof -
  from assms have ready: "fst (busy_check debug a s)" by (simp add: busy_check_io)
  have "inputs (start_transaction a (snd (busy_check debug a s))) (SMBHSTSTS a) 0 = 0"
    using assms by (simp add: start_transaction_io busy_check_inputs)
  then have "fst (final_poll debug a s) = 0" "fst (snd (final_poll debug a s)) = 0"
    by (simp_all add: final_poll_def poll_loop_unfold)
  then show ?thesis
    by (simp add: transaction_ready [OF ready] decode_status_def MAX_TIMEOUT_def)
qed

lemma armed_block_read:
  "rw \<noteq> I2C_SMBUS_WRITE \<Longrightarrow>
   inputs (armed a addr rw cmd I2C_SMBUS_BLOCK_DATA d s) = inputs s \<and>
   port_reads p (trace (armed a addr rw cmd I2C_SMBUS_BLOCK_DATA d s)) = port_reads p (trace s)"
  by (simp add: armed_def load_block_data prim_defs)

lemma read_result_block:
  "fst (read_result a OSB4_BLOCK_DATA d s) =
     (\<lambda>j. if j = 0 then inputs s (SMBHSTDAT0 a) 0
          else if j \<le> unat (inputs s (SMBHSTDAT0 a) 0) then inputs s (SMBBLKDAT a) (j - 1)
          else d j)"
  "port_reads (SMBBLKDAT a) (trace (snd (read_result a OSB4_BLOCK_DATA d s))) =
     port_reads (SMBBLKDAT a) (trace s) @ map (inputs s (SMBBLKDAT a)) [0..<unat (inputs s (SMBHSTDAT0 a) 0)]"
  by (auto simp add: read_result_def size_defs split_beta Let_def block_read_events prim_defs
      fun_eq_iff)

text \<open>
  C9. On a successful block-data read, with \<open>len\<close> the length that the device reports
  in \<open>SMBHSTDAT0\<close>: \<open>data->block[0]\<close> is \<open>len\<close>, exactly \<open>len\<close> bytes are read from
  \<open>SMBBLKDAT\<close> and stored at \<open>data->block[1]\<close> to \<open>data->block[len]\<close>, and no other
  byte of the buffer changes. Nothing cuts \<open>len\<close> off at 32: when \<open>len\<close> is greater
  than 32, bytes are stored at index 33 and beyond.
\<close>

theorem block_read_unclamped:
  assumes "rw \<noteq> I2C_SMBUS_WRITE"
    and "fst (osb4_access debug a addr rw cmd I2C_SMBUS_BLOCK_DATA d s) = 0"
    and "len = inputs s (SMBHSTDAT0 a) (if debug then 2 else 0)"
  shows "fst (snd (osb4_access debug a addr rw cmd I2C_SMBUS_BLOCK_DATA d s)) =
           (\<lambda>j. if j = 0 then len
                else if j \<le> unat len then inputs s (SMBBLKDAT a) (j - 1)
                else d j) \<and>
         port_reads (SMBBLKDAT a)
             (trace (snd (snd (osb4_access debug a addr rw cmd I2C_SMBUS_BLOCK_DATA d s)))) =
           port_reads (SMBBLKDAT a) (trace s) @ map (inputs s (SMBBLKDAT a)) [0..<unat len] \<and>
         (32 < unat len \<longrightarrow>
            fst (snd (osb4_access debug a addr rw cmd I2C_SMBUS_BLOCK_DATA d s)) 33 =
              inputs s (SMBBLKDAT a) 32)"
proof -
  let ?s1 = "armed a addr rw cmd I2C_SMBUS_BLOCK_DATA d s"
  let ?s2 = "snd (osb4_transaction debug a ?s1)"
  have pc: "I2C_SMBUS_BLOCK_DATA \<noteq> I2C_SMBUS_PROC_CALL" by (simp add: size_defs)
  have nq: "OSB4_BLOCK_DATA \<noteq> OSB4_QUICK" by (simp add: size_defs)
  from assms(2) have ok: "fst (osb4_transaction debug a ?s1) = 0"
    by (simp add: osb4_access_run [OF pc] split: if_splits)
  then have run: "osb4_access debug a addr rw cmd I2C_SMBUS_BLOCK_DATA d s =
      (0, read_result a OSB4_BLOCK_DATA d ?s2)"
    using assms(1) nq by (simp add: osb4_access_run [OF pc])
  have len: "inputs ?s2 (SMBHSTDAT0 a) 0 = len"
    using assms(3) by (simp add: transaction_success_inputs [OF ok] armed_block_read [OF assms(1)]
        numeral_2_eq_2)
  have blk: "inputs ?s2 (SMBBLKDAT a) = inputs s (SMBBLKDAT a)"
    "port_reads (SMBBLKDAT a) (trace ?s2) = port_reads (SMBBLKDAT a) (trace s)"
    by (simp_all add: transaction_success_inputs [OF ok] armed_block_read [OF assms(1)])
  show ?thesis
    by (simp add: run read_result_block len blk cong: if_cong)
qed

theorem block_read_unclamped_witness:
  "I2C_SMBUS_READ \<noteq> I2C_SMBUS_WRITE \<and>
   fst (osb4_access False 0x1000 0x50 I2C_SMBUS_READ 0x00 I2C_SMBUS_BLOCK_DATA (\<lambda>i. 0x00)
          long_reply_io) = 0 \<and>
   inputs long_reply_io (SMBHSTDAT0 0x1000) 0 = 0x28 \<and>
   fst (snd (osb4_access False 0x1000 0x50 I2C_SMBUS_READ 0x00 I2C_SMBUS_BLOCK_DATA (\<lambda>i. 0x00)
          long_reply_io)) 33 = 0x21 \<and>
   fst (snd (osb4_access False 0x1000 0x50 I2C_SMBUS_READ 0x00 I2C_SMBUS_BLOCK_DATA (\<lambda>i. 0x00)
          long_reply_io)) 40 = 0x28 \<and>
   fst (snd (osb4_access False 0x1000 0x50 I2C_SMBUS_READ 0x00 I2C_SMBUS_BLOCK_DATA (\<lambda>i. 0x00)
          long_reply_io)) 41 = 0x00 \<and>
   length (port_reads (SMBBLKDAT 0x1000)
     (trace (snd (snd (osb4_access False 0x1000 0x50 I2C_SMBUS_READ 0x00 I2C_SMBUS_BLOCK_DATA
        (\<lambda>i. 0x00) long_reply_io))))) = 40"
proof -
  have rd: "I2C_SMBUS_READ \<noteq> I2C_SMBUS_WRITE"
    by (simp add: I2C_SMBUS_READ_def I2C_SMBUS_WRITE_def)
  have pc: "I2C_SMBUS_BLOCK_DATA \<noteq> I2C_SMBUS_PROC_CALL" by (simp add: size_defs)
  have "\<forall>n. inputs (armed 0x1000 0x50 I2C_SMBUS_READ 0x00 I2C_SMBUS_BLOCK_DATA (\<lambda>i. 0x00)
          long_reply_io) (SMBHSTSTS 0x1000) n = 0"
    by (simp add: armed_block_read [OF rd] long_reply_io_def port_defs)
  from transaction_idle [OF this] have ok:
    "fst (osb4_access False 0x1000 0x50 I2C_SMBUS_READ 0x00 I2C_SMBUS_BLOCK_DATA (\<lambda>i. 0x00)
          long_reply_io) = 0"
    by (simp add: osb4_access_run [OF pc])
  have len: "0x28 = inputs long_reply_io (SMBHSTDAT0 0x1000) (if False then 2 else 0)"
    by (simp add: long_reply_io_def)
  from block_read_unclamped [OF rd ok len] rd ok show ?thesis
    by (simp add: long_reply_io_def port_defs)
qed

theorem unknown_size_runs_transaction_witness:
  "(7 :: cint) \<notin> {I2C_SMBUS_PROC_CALL, I2C_SMBUS_QUICK, I2C_SMBUS_BYTE, I2C_SMBUS_BYTE_DATA,
                  I2C_SMBUS_WORD_DATA, I2C_SMBUS_BLOCK_DATA} \<and>
   load_registers 0x1000 0x50 I2C_SMBUS_WRITE 0x00 7 (\<lambda>i. 0x00) idle_io = Some (7, idle_io) \<and>
   trace (armed 0x1000 0x50 I2C_SMBUS_WRITE 0x00 7 (\<lambda>i. 0x00) idle_io) = [Outb 0x1002 0x04] \<and>
   fst (osb4_access False 0x1000 0x50 I2C_SMBUS_WRITE 0x00 7 (\<lambda>i. 0x00) idle_io) = 0 \<and>
   port_writes (SMBHSTADD 0x1000)
     (trace (snd (snd (osb4_access False 0x1000 0x50 I2C_SMBUS_WRITE 0x00 7 (\<lambda>i. 0x00) idle_io)))) = []"
proof -
  have u: "(7 :: cint) \<notin> {I2C_SMBUS_PROC_CALL, I2C_SMBUS_QUICK, I2C_SMBUS_BYTE, I2C_SMBUS_BYTE_DATA,
                  I2C_SMBUS_WORD_DATA, I2C_SMBUS_BLOCK_DATA}"
    by (simp add: size_defs)
  note inst = unknown_size_runs_transaction [OF u, of "0x1000" "0x50" I2C_SMBUS_WRITE "0x00"
      "\<lambda>i. 0x00" idle_io False "SMBHSTADD 0x1000"]
  from inst have c1:
    "load_registers 0x1000 0x50 I2C_SMBUS_WRITE 0x00 7 (\<lambda>i. 0x00) idle_io = Some (7, idle_io)"
    by blast
  from inst have "trace (armed 0x1000 0x50 I2C_SMBUS_WRITE 0x00 7 (\<lambda>i. 0x00) idle_io) =
      trace idle_io @ [Outb (SMBHSTCNT 0x1000) (ucast ((7 :: cint) AND 0x1C))]"
    by blast
  then have c2: "trace (armed 0x1000 0x50 I2C_SMBUS_WRITE 0x00 7 (\<lambda>i. 0x00) idle_io) =
      [Outb 0x1002 0x04]"
    by (simp add: idle_io_def port_defs)
  from inst have "armed 0x1000 0x50 I2C_SMBUS_WRITE 0x00 7 (\<lambda>i. 0x00) idle_io =
      outb_p (ucast ((7 :: cint) AND 0x1C)) (SMBHSTCNT 0x1000) idle_io"
    by blast
  then have "\<forall>n. inputs (armed 0x1000 0x50 I2C_SMBUS_WRITE 0x00 7 (\<lambda>i. 0x00) idle_io)
      (SMBHSTSTS 0x1000) n = 0"
    by (simp add: idle_io_def prim_defs)
  from transaction_idle [OF this, of False] inst have c3:
    "fst (osb4_access False 0x1000 0x50 I2C_SMBUS_WRITE 0x00 7 (\<lambda>i. 0x00) idle_io) = 0"
    by simp
  from inst have "port_writes (SMBHSTADD 0x1000)
     (trace (snd (snd (osb4_access False 0x1000 0x50 I2C_SMBUS_WRITE 0x00 7 (\<lambda>i. 0x00) idle_io)))) =
     port_writes (SMBHSTADD 0x1000) (trace idle_io)"
    by blast
  then have c4: "port_writes (SMBHSTADD 0x1000)
     (trace (snd (snd (osb4_access False 0x1000 0x50 I2C_SMBUS_WRITE 0x00 7 (\<lambda>i. 0x00) idle_io)))) = []"
    by (simp add: idle_io_def)
  from u c1 c2 c3 c4 show ?thesis by blast
qed

subsection \<open>Controller setup\<close>



end
